theory Spec2Isabelle
  imports Main
begin

section \<open>Digital zoom handling of the OMX camera adapter (OMXZoom.cpp)\<close>

text \<open>
  The adapter's zoom members are modelled as a record that every operation takes and
  returns. Everything an operation does to the outside (the OMX digital zoom
  configuration, the zoom subscribers, the adapter state machine of BaseCameraAdapter)
  is returned as a list of events, in program order. Everything the outside answers
  (the adapter state read by getState, the result of OMX_SetConfig, the results of
  setState, commitState and rollbackState) is an argument of the operation.

  Zoom indices and status codes are C ints, modelled as \<open>int\<close> with the 32-bit
  wrap-around written out where the source computes: \<open>mCurrentZoomIdx += mZoomInc\<close>
  and \<open>mMaxZoomSupported - 1\<close>. \<open>ret |= rollbackState()\<close> is the bitwise or of
  two's complement integers.
\<close>

subsection \<open>Constants and types declared outside OMXZoom.cpp\<close>

text \<open>
  The status codes of the platform headers: NO_ERROR is 0 and EINVAL is 22, a failure is
  any other value than NO_ERROR.
\<close>

type_synonym status_t = int

text \<open>The values of a C int, and the result of int arithmetic, which wraps around.\<close>

definition INT_MIN :: int where
  "INT_MIN = - 2147483648"

definition INT_MAX :: int where
  "INT_MAX = 2147483647"

definition int32 :: "int \<Rightarrow> bool" where
  "int32 x \<longleftrightarrow> INT_MIN \<le> x \<and> x \<le> INT_MAX"

definition int32_wrap :: "int \<Rightarrow> int" where
  "int32_wrap x = (x + 2147483648) mod 4294967296 - 2147483648"

abbreviation NO_ERROR :: status_t where "NO_ERROR \<equiv> 0"

abbreviation EINVAL :: int where "EINVAL \<equiv> 22"

text \<open>
  Modelled from the spec: the OMX component state (OMX_STATETYPE of the OpenMAX IL headers,
  not part of this file). doZoom only compares it with OMX_StateInvalid.
\<close>

datatype OMX_STATETYPE =
    OMX_StateInvalid | OMX_StateLoaded | OMX_StateIdle | OMX_StateExecuting
  | OMX_StatePause | OMX_StateWaitForResources

text \<open>
  Modelled from the spec: the capture mode (enum CaptureMode of OMXCameraAdapter.h, not
  part of this file). doZoom only asks whether it is one of the two video modes.
\<close>

datatype CaptureMode =
    INITIAL_MODE | HIGH_SPEED | HIGH_QUALITY | VIDEO_MODE | HIGH_QUALITY_ZSL
  | CP_CAM | VIDEO_MODE_HQ

subsection \<open>The zoom members of OMXCameraAdapter\<close>

record adapter =
  mCurrentZoomIdx :: int
  mTargetZoomIdx :: int
  mPreviousZoomIndx :: int
  mZoomParameterIdx :: int
  mZoomInc :: int
  mReturnZoomStatus :: bool
  mZoomUpdating :: bool
  mZoomUpdate :: bool
  mMaxZoomSupported :: int
  mComponentState :: OMX_STATETYPE
  mCapMode :: CaptureMode
  mSensorIndex :: int
  mPrevZoomModeIsVideo :: bool
  mPrevZoomSensorIndex :: int

text \<open>What an operation does to its collaborators.\<close>

datatype event =
    OMX_SetConfig_DigitalZoom int int bool
      \<comment> \<open>xWidth, xHeight, and whether the component answered OMX_ErrorNone\<close>
  | NotifyZoomSubscribers int bool
  | SetState_CAMERA_STOP_SMOOTH_ZOOM
  | CommitState
  | RollbackState

text \<open>Reading ZOOM_STEPS outside the array is undefined behaviour of the C++ program.\<close>

datatype fault = OutOfBoundsRead

subsection \<open>The zoom table\<close>

definition FrontSensorVideoMinZoom :: int where
  "FrontSensorVideoMinZoom = 66816"

definition BackSensorVideoMinZoom :: int where
  "BackSensorVideoMinZoom = 66304"

definition ZOOM_STEPS :: "int list" where
  "ZOOM_STEPS =
    [65536, 68157, 70124, 72745,
     75366, 77988, 80609, 83231,
     86508, 89784, 92406, 95683,
     99615, 102892, 106168, 110100,
     114033, 117965, 122552, 126484,
     131072, 135660, 140247, 145490,
     150733, 155976, 161219, 167117,
     173015, 178913, 185467, 192020,
     198574, 205783, 212992, 220201,
     228065, 236585, 244449, 252969,
     262144, 271319, 281149, 290980,
     300810, 311951, 322437, 334234,
     346030, 357827, 370934, 384041,
     397148, 411566, 425984, 441057,
     456131, 472515, 488899, 506593,
     524288]"

text \<open>
  Modelled from the spec: ZOOM_STAGES, the declared length of ZOOM_STEPS
  (OMXCameraAdapter.h, not part of this file), is the number of entries of the table.
\<close>

definition ZOOM_STAGES :: int where
  "ZOOM_STAGES = 61"

text \<open>The array read \<open>ZOOM_STEPS[index]\<close>; the source does not check the index.\<close>

definition ZOOM_STEPS_at :: "int \<Rightarrow> fault + int" where
  "ZOOM_STEPS_at index =
     (if 0 \<le> index \<and> index < ZOOM_STAGES then Inr (ZOOM_STEPS ! nat index)
      else Inl OutOfBoundsRead)"

text \<open>
  The first argument of the operations below is the build: True when CAMERAHAL_TUNA is
  defined.
\<close>

definition getZoomStep :: "bool \<Rightarrow> adapter \<Rightarrow> int \<Rightarrow> fault + int" where
  "getZoomStep tuna s index =
     (if tuna then
        (if index \<noteq> 0 \<or> \<not> mPrevZoomModeIsVideo s then ZOOM_STEPS_at index
         else if mSensorIndex s = 1 then Inr FrontSensorVideoMinZoom
         else Inr BackSensorVideoMinZoom)
      else ZOOM_STEPS_at index)"

subsection \<open>doZoom\<close>

definition curZoomModeIsVideo :: "adapter \<Rightarrow> bool" where
  "curZoomModeIsVideo s \<longleftrightarrow> mCapMode s = VIDEO_MODE \<or> mCapMode s = VIDEO_MODE_HQ"

text \<open>The condition of the early \<open>return NO_ERROR\<close> of doZoom, in either build.\<close>

definition zoomAlreadyApplied :: "bool \<Rightarrow> adapter \<Rightarrow> int \<Rightarrow> bool" where
  "zoomAlreadyApplied tuna s index =
     (if tuna then
        mPreviousZoomIndx s = index \<and>
        (index \<noteq> 0 \<or> (curZoomModeIsVideo s = mPrevZoomModeIsVideo s \<and>
                        mSensorIndex s = mPrevZoomSensorIndex s))
      else mPreviousZoomIndx s = index)"

text \<open>
  The range test \<open>(0 > index) || ((mMaxZoomSupported - 1) < index)\<close> of doZoom; the
  subtraction is int arithmetic.
\<close>

definition zoomIndexRejected :: "adapter \<Rightarrow> int \<Rightarrow> bool" where
  "zoomIndexRejected s index \<longleftrightarrow>
     0 > index \<or> int32_wrap (mMaxZoomSupported s - 1) < index"

text \<open>
  The two assignments that follow the early return when CAMERAHAL_TUNA is defined: the
  capture mode class and the sensor are recorded before the table is consulted.
\<close>

definition zoomContextRecorded :: "bool \<Rightarrow> adapter \<Rightarrow> adapter" where
  "zoomContextRecorded tuna s =
     (if tuna
      then s\<lparr>mPrevZoomModeIsVideo := curZoomModeIsVideo s,
             mPrevZoomSensorIndex := mSensorIndex s\<rparr>
      else s)"

text \<open>
  \<open>omx_ok\<close> is the answer of the component, should this call reach OMX_SetConfig:
  True for OMX_ErrorNone.
\<close>

definition doZoom ::
  "bool \<Rightarrow> bool \<Rightarrow> int \<Rightarrow> adapter \<Rightarrow> fault + (status_t \<times> event list \<times> adapter)" where
  "doZoom tuna omx_ok index s =
     (let ret0 = (if mComponentState s = OMX_StateInvalid then - 1 else NO_ERROR);
          ret = (if zoomIndexRejected s index then - EINVAL else ret0)
      in if zoomAlreadyApplied tuna s index then Inr (NO_ERROR, [], s)
         else
           let s1 = zoomContextRecorded tuna s
           in if ret = NO_ERROR then
                (case getZoomStep tuna s1 index of
                   Inl f \<Rightarrow> Inl f
                 | Inr z \<Rightarrow>
                     if omx_ok
                     then Inr (ret, [OMX_SetConfig_DigitalZoom z z True],
                               s1\<lparr>mPreviousZoomIndx := index\<rparr>)
                     else Inr (- 1, [OMX_SetConfig_DigitalZoom z z False], s1))
              else Inr (ret, [], s1))"

subsection \<open>setParametersZoom\<close>

text \<open>
  The inputs of one call: whether the adapter state passed by the caller has the
  ZOOM_ACTIVE flag set (a single-bit flag of BaseCameraAdapter, so the test
  \<open>(ZOOM_ACTIVE & state) != ZOOM_ACTIVE\<close> is the negation of \<open>ZOOM_ACTIVE & state\<close>),
  the value of KEY_ZOOM in the parameters, and the component's answer.
\<close>

record zoom_request =
  reqZoomActive :: bool
  reqZoom :: int
  reqOmxOk :: bool

definition setParametersZoom ::
  "bool \<Rightarrow> zoom_request \<Rightarrow> adapter \<Rightarrow> fault + (status_t \<times> event list \<times> adapter)" where
  "setParametersZoom tuna r s =
     (if \<not> reqZoomActive r then
        (let zoom = reqZoom r in
         if zoom \<ge> 0 \<and> zoom < mMaxZoomSupported s then
           (let s1 = s\<lparr>mTargetZoomIdx := zoom\<rparr>;
                s2 = s1\<lparr>mCurrentZoomIdx := mTargetZoomIdx s1\<rparr>
            in if \<not> mZoomUpdating s2 then
                 (case doZoom tuna (reqOmxOk r) (mCurrentZoomIdx s2) s2 of
                    Inl f \<Rightarrow> Inl f
                  | Inr (_, evs, s3) \<Rightarrow> Inr (NO_ERROR, evs, s3\<lparr>mZoomUpdating := True\<rparr>))
               else Inr (NO_ERROR, [], s2\<lparr>mZoomUpdate := True\<rparr>))
         else Inr (NO_ERROR, [], s))
      else Inr (NO_ERROR, [], s))"

subsection \<open>startSmoothZoom and stopSmoothZoom\<close>

definition startSmoothZoom :: "int \<Rightarrow> adapter \<Rightarrow> status_t \<times> adapter" where
  "startSmoothZoom targetIdx s =
     (if targetIdx \<ge> 0 \<and> targetIdx < mMaxZoomSupported s
      then (NO_ERROR, s\<lparr>mTargetZoomIdx := targetIdx,
                        mZoomParameterIdx := mCurrentZoomIdx s,
                        mReturnZoomStatus := False\<rparr>)
      else (- EINVAL, s))"

definition stopSmoothZoom :: "adapter \<Rightarrow> status_t \<times> adapter" where
  "stopSmoothZoom s =
     (if mTargetZoomIdx s \<noteq> mCurrentZoomIdx s
      then (NO_ERROR, s\<lparr>mZoomInc := (if mCurrentZoomIdx s < mTargetZoomIdx s then 1 else - 1),
                        mReturnZoomStatus := True\<rparr>)
      else (NO_ERROR, s))"

subsection \<open>advanceZoom\<close>

text \<open>
  The inputs of one tick: whether the state read by getState has ZOOM_ACTIVE set, the
  component's answer to the doZoom of the stepping part and to the doZoom of the deferred
  update, and the results of setState, commitState and rollbackState.
\<close>

record tick =
  zoomActive :: bool
  omxStepOk :: bool
  omxUpdateOk :: bool
  setStateRet :: status_t
  commitStateRet :: status_t
  rollbackStateRet :: status_t

text \<open>
  The block \<open>ret = setState(CAMERA_STOP_SMOOTH_ZOOM); if (NO_ERROR == ret) ret =
  commitState(); else ret |= rollbackState();\<close>, which advanceZoom contains twice.
\<close>

definition stopSmoothZoomState :: "tick \<Rightarrow> status_t \<times> event list" where
  "stopSmoothZoomState t =
     (if setStateRet t = NO_ERROR
      then (commitStateRet t, [SetState_CAMERA_STOP_SMOOTH_ZOOM, CommitState])
      else (or (setStateRet t) (rollbackStateRet t),
            [SetState_CAMERA_STOP_SMOOTH_ZOOM, RollbackState]))"

text \<open>The \<open>if / else if / else if\<close> chain of advanceZoom.\<close>

definition advanceZoom_step ::
  "bool \<Rightarrow> tick \<Rightarrow> adapter \<Rightarrow> fault + (status_t \<times> event list \<times> adapter)" where
  "advanceZoom_step tuna t s =
     (if mReturnZoomStatus s then
        (let s1 = s\<lparr>mCurrentZoomIdx := int32_wrap (mCurrentZoomIdx s + mZoomInc s)\<rparr>;
             s2 = s1\<lparr>mTargetZoomIdx := mCurrentZoomIdx s1, mReturnZoomStatus := False\<rparr>
         in case doZoom tuna (omxStepOk t) (mCurrentZoomIdx s2) s2 of
              Inl f \<Rightarrow> Inl f
            | Inr (ret, evs, s3) \<Rightarrow>
                Inr (ret, evs @ [NotifyZoomSubscribers (mCurrentZoomIdx s3) True], s3))
      else if mCurrentZoomIdx s \<noteq> mTargetZoomIdx s then
        (let s1 = (if zoomActive t then
                     (let s' = s\<lparr>mZoomInc :=
                                   (if mCurrentZoomIdx s < mTargetZoomIdx s then 1 else - 1)\<rparr>
                      in s'\<lparr>mCurrentZoomIdx := int32_wrap (mCurrentZoomIdx s' + mZoomInc s')\<rparr>)
                   else s\<lparr>mCurrentZoomIdx := mTargetZoomIdx s\<rparr>)
         in case doZoom tuna (omxStepOk t) (mCurrentZoomIdx s1) s1 of
              Inl f \<Rightarrow> Inl f
            | Inr (ret, evs, s2) \<Rightarrow>
                if zoomActive t then
                  (if mCurrentZoomIdx s2 = mTargetZoomIdx s2 then
                     (let (ret', evs') =
                            (if ret = NO_ERROR then stopSmoothZoomState t else (ret, []))
                      in Inr (ret',
                              evs @ evs' @ [NotifyZoomSubscribers (mCurrentZoomIdx s2) True],
                              s2\<lparr>mReturnZoomStatus := False\<rparr>))
                   else
                     Inr (ret, evs @ [NotifyZoomSubscribers (mCurrentZoomIdx s2) False], s2))
                else Inr (ret, evs, s2))
      else if mCurrentZoomIdx s = mTargetZoomIdx s \<and> zoomActive t then
        (let (ret, evs) = stopSmoothZoomState t in Inr (ret, evs, s))
      else Inr (NO_ERROR, [], s))"

text \<open>The final \<open>if (mZoomUpdate) ... else ...\<close> of advanceZoom.\<close>

definition advanceZoom_update ::
  "bool \<Rightarrow> tick \<Rightarrow> adapter \<Rightarrow> fault + (event list \<times> adapter)" where
  "advanceZoom_update tuna t s =
     (if mZoomUpdate s then
        (case doZoom tuna (omxUpdateOk t) (mTargetZoomIdx s) s of
           Inl f \<Rightarrow> Inl f
         | Inr (_, evs, s1) \<Rightarrow> Inr (evs, s1\<lparr>mZoomUpdate := False, mZoomUpdating := True\<rparr>))
      else Inr ([], s\<lparr>mZoomUpdating := False\<rparr>))"

definition advanceZoom ::
  "bool \<Rightarrow> tick \<Rightarrow> adapter \<Rightarrow> fault + (status_t \<times> event list \<times> adapter)" where
  "advanceZoom tuna t s =
     (case advanceZoom_step tuna t s of
        Inl f \<Rightarrow> Inl f
      | Inr (ret, evs, s1) \<Rightarrow>
          (case advanceZoom_update tuna t s1 of
             Inl f \<Rightarrow> Inl f
           | Inr (evs', s2) \<Rightarrow> Inr (ret, evs @ evs', s2)))"

text \<open>
  Repeated ticks: one call of advanceZoom per element of the list, each on the state the
  previous one left. The result lists what every call returned.
\<close>

fun advanceZoom_ticks ::
  "bool \<Rightarrow> tick list \<Rightarrow> adapter \<Rightarrow> fault + (status_t \<times> event list \<times> adapter) list" where
  "advanceZoom_ticks tuna [] s = Inr []"
| "advanceZoom_ticks tuna (t # ts) s =
     (case advanceZoom tuna t s of
        Inl f \<Rightarrow> Inl f
      | Inr (ret, evs, s1) \<Rightarrow>
          (case advanceZoom_ticks tuna ts s1 of
             Inl f \<Rightarrow> Inl f
           | Inr rest \<Rightarrow> Inr ((ret, evs, s1) # rest)))"

subsection \<open>Reading the event list\<close>

fun hardwareWrites :: "event list \<Rightarrow> (int \<times> int \<times> bool) list" where
  "hardwareWrites [] = []"
| "hardwareWrites (OMX_SetConfig_DigitalZoom w h ok # evs) = (w, h, ok) # hardwareWrites evs"
| "hardwareWrites (_ # evs) = hardwareWrites evs"

fun notifications :: "event list \<Rightarrow> (int \<times> bool) list" where
  "notifications [] = []"
| "notifications (NotifyZoomSubscribers i final # evs) = (i, final) # notifications evs"
| "notifications (_ # evs) = notifications evs"

text \<open>
  A session for the examples: every index 0, no flag set, the component executing, the
  back sensor in a still capture mode; the argument is mMaxZoomSupported.
\<close>

definition idleAdapter :: "int \<Rightarrow> adapter" where
  "idleAdapter maxZoom =
     \<lparr>mCurrentZoomIdx = 0, mTargetZoomIdx = 0, mPreviousZoomIndx = 0,
      mZoomParameterIdx = 0, mZoomInc = 0, mReturnZoomStatus = False,
      mZoomUpdating = False, mZoomUpdate = False, mMaxZoomSupported = maxZoom,
      mComponentState = OMX_StateExecuting, mCapMode = HIGH_QUALITY, mSensorIndex = 0,
      mPrevZoomModeIsVideo = False, mPrevZoomSensorIndex = 0\<rparr>"

section \<open>Properties\<close>

subsection \<open>Event lists\<close>

lemma hardwareWrites_append:
  "hardwareWrites (xs @ ys) = hardwareWrites xs @ hardwareWrites ys"
  by (induction xs rule: hardwareWrites.induct) simp_all

lemma notifications_append:
  "notifications (xs @ ys) = notifications xs @ notifications ys"
  by (induction xs rule: notifications.induct) simp_all

subsection \<open>Int arithmetic\<close>

lemma int32_wrap_id:
  assumes "INT_MIN \<le> x" "x \<le> INT_MAX"
  shows "int32_wrap x = x"
proof -
  from assms have "0 \<le> x + 2147483648" "x + 2147483648 < 4294967296"
    by (simp_all add: INT_MIN_def INT_MAX_def)
  then have "(x + 2147483648) mod 4294967296 = x + 2147483648"
    by (rule mod_pos_pos_trivial)
  then show ?thesis by (simp add: int32_wrap_def)
qed

lemma int32_wrap_at_limits:
  "int32_wrap (INT_MAX + 1) = INT_MIN" "int32_wrap (INT_MIN - 1) = INT_MAX"
  by (simp_all add: int32_wrap_def INT_MAX_def INT_MIN_def)

lemma int32_step:
  assumes "int32 a" "int32 b" "a \<noteq> b"
  shows "int32_wrap (a + (if a < b then 1 else - 1)) = a + (if a < b then 1 else - 1)"
    and "int32 (a + (if a < b then 1 else - 1))"
proof -
  from assms have "INT_MIN \<le> a + (if a < b then 1 else - 1)"
    "a + (if a < b then 1 else - 1) \<le> INT_MAX"
    by (auto simp add: int32_def)
  then show "int32_wrap (a + (if a < b then 1 else - 1)) = a + (if a < b then 1 else - 1)"
    and "int32 (a + (if a < b then 1 else - 1))"
    by (simp_all add: int32_wrap_id int32_def)
qed

lemma zoomIndexRejected_exact:
  assumes "INT_MIN < mMaxZoomSupported s" "mMaxZoomSupported s \<le> INT_MAX"
  shows "zoomIndexRejected s index \<longleftrightarrow> index < 0 \<or> mMaxZoomSupported s \<le> index"
proof -
  from assms have "int32_wrap (mMaxZoomSupported s - 1) = mMaxZoomSupported s - 1"
    by (intro int32_wrap_id) (simp_all add: INT_MAX_def)
  then show ?thesis by (auto simp add: zoomIndexRejected_def)
qed

lemma zoomIndexRejected_cong:
  "mMaxZoomSupported a = mMaxZoomSupported b \<Longrightarrow>
   zoomIndexRejected a index = zoomIndexRejected b index"
  by (simp add: zoomIndexRejected_def)

lemma ZOOM_STAGES_INT_MAX: "m \<le> ZOOM_STAGES \<Longrightarrow> m \<le> INT_MAX"
  by (simp add: ZOOM_STAGES_def INT_MAX_def)

subsection \<open>The table and the faults of doZoom\<close>

lemma ZOOM_STEPS_length: "length ZOOM_STEPS = 61"
  by (simp add: ZOOM_STEPS_def)

lemma ZOOM_STEPS_bounds: "\<forall>z \<in> set ZOOM_STEPS. 65536 \<le> z \<and> z \<le> 524288"
  by (simp add: ZOOM_STEPS_def)

lemma ZOOM_STEPS_at_in_range:
  assumes "0 \<le> index" "index < ZOOM_STAGES"
  shows "\<exists>z. ZOOM_STEPS_at index = Inr z \<and> z = ZOOM_STEPS ! nat index \<and> 65536 \<le> z \<and> z \<le> 524288"
proof -
  have "nat index < length ZOOM_STEPS"
    using assms by (simp add: ZOOM_STEPS_length ZOOM_STAGES_def)
  then have "ZOOM_STEPS ! nat index \<in> set ZOOM_STEPS" by (rule nth_mem)
  with ZOOM_STEPS_bounds have "65536 \<le> ZOOM_STEPS ! nat index \<and> ZOOM_STEPS ! nat index \<le> 524288"
    by blast
  with assms show ?thesis by (simp add: ZOOM_STEPS_at_def)
qed

lemma getZoomStep_in_range:
  assumes "0 \<le> index" "index < ZOOM_STAGES"
  shows "\<exists>z. getZoomStep tuna s index = Inr z \<and> 65536 \<le> z \<and> z \<le> 524288"
  using ZOOM_STEPS_at_in_range [OF assms]
  by (auto simp add: getZoomStep_def FrontSensorVideoMinZoom_def BackSensorVideoMinZoom_def)

lemma doZoom_skips:
  assumes "zoomAlreadyApplied tuna s index"
  shows "doZoom tuna omx_ok index s = Inr (NO_ERROR, [], s)"
  using assms by (simp add: doZoom_def Let_def)

lemma doZoom_not_skipped:
  assumes "\<not> zoomAlreadyApplied tuna s index"
  shows "doZoom tuna omx_ok index s =
     (if zoomIndexRejected s index
      then Inr (- EINVAL, [], zoomContextRecorded tuna s)
      else if mComponentState s = OMX_StateInvalid
      then Inr (- 1, [], zoomContextRecorded tuna s)
      else (case getZoomStep tuna (zoomContextRecorded tuna s) index of
              Inl f \<Rightarrow> Inl f
            | Inr z \<Rightarrow>
                if omx_ok
                then Inr (NO_ERROR, [OMX_SetConfig_DigitalZoom z z True],
                          (zoomContextRecorded tuna s)\<lparr>mPreviousZoomIndx := index\<rparr>)
                else Inr (- 1, [OMX_SetConfig_DigitalZoom z z False],
                          zoomContextRecorded tuna s)))"
  using assms by (simp add: doZoom_def Let_def)

lemma doZoom_no_fault:
  assumes "mMaxZoomSupported s \<le> ZOOM_STAGES" "INT_MIN < mMaxZoomSupported s"
  shows "\<exists>ret evs s'. doZoom tuna omx_ok index s = Inr (ret, evs, s')"
proof (cases "zoomAlreadyApplied tuna s index")
  case True
  then show ?thesis by (simp add: doZoom_skips)
next
  case False
  note exact = zoomIndexRejected_exact [OF assms(2) ZOOM_STAGES_INT_MAX [OF assms(1)], of index]
  show ?thesis
  proof (cases "zoomIndexRejected s index")
    case True
    then show ?thesis by (simp add: doZoom_not_skipped [OF False])
  next
    case ok: False
    with exact assms have "0 \<le> index" "index < ZOOM_STAGES" by auto
    from getZoomStep_in_range [OF this]
    obtain z where "getZoomStep tuna (zoomContextRecorded tuna s) index = Inr z" by blast
    with ok show ?thesis by (simp add: doZoom_not_skipped [OF False])
  qed
qed

lemma zoomContextRecorded_fields [simp]:
  "mCurrentZoomIdx (zoomContextRecorded tuna s) = mCurrentZoomIdx s"
  "mTargetZoomIdx (zoomContextRecorded tuna s) = mTargetZoomIdx s"
  "mPreviousZoomIndx (zoomContextRecorded tuna s) = mPreviousZoomIndx s"
  "mZoomParameterIdx (zoomContextRecorded tuna s) = mZoomParameterIdx s"
  "mZoomInc (zoomContextRecorded tuna s) = mZoomInc s"
  "mReturnZoomStatus (zoomContextRecorded tuna s) = mReturnZoomStatus s"
  "mZoomUpdating (zoomContextRecorded tuna s) = mZoomUpdating s"
  "mZoomUpdate (zoomContextRecorded tuna s) = mZoomUpdate s"
  "mMaxZoomSupported (zoomContextRecorded tuna s) = mMaxZoomSupported s"
  "mComponentState (zoomContextRecorded tuna s) = mComponentState s"
  "mCapMode (zoomContextRecorded tuna s) = mCapMode s"
  "mSensorIndex (zoomContextRecorded tuna s) = mSensorIndex s"
  by (simp_all add: zoomContextRecorded_def)

lemma zoomContextRecorded_context:
  "mPrevZoomModeIsVideo (zoomContextRecorded tuna s)
     = (if tuna then curZoomModeIsVideo s else mPrevZoomModeIsVideo s)"
  "mPrevZoomSensorIndex (zoomContextRecorded tuna s)
     = (if tuna then mSensorIndex s else mPrevZoomSensorIndex s)"
  "curZoomModeIsVideo (zoomContextRecorded tuna s) = curZoomModeIsVideo s"
  by (simp_all add: zoomContextRecorded_def curZoomModeIsVideo_def)

lemma zoomContextRecorded_idem:
  "zoomContextRecorded tuna (zoomContextRecorded tuna s) = zoomContextRecorded tuna s"
  by (simp add: zoomContextRecorded_def curZoomModeIsVideo_def)

lemma doZoom_frame:
  assumes "doZoom tuna omx_ok index s = Inr (ret, evs, s')"
  shows "mCurrentZoomIdx s' = mCurrentZoomIdx s \<and> mTargetZoomIdx s' = mTargetZoomIdx s \<and>
         mZoomParameterIdx s' = mZoomParameterIdx s \<and> mZoomInc s' = mZoomInc s \<and>
         mReturnZoomStatus s' = mReturnZoomStatus s \<and> mZoomUpdating s' = mZoomUpdating s \<and>
         mZoomUpdate s' = mZoomUpdate s \<and> mMaxZoomSupported s' = mMaxZoomSupported s \<and>
         mComponentState s' = mComponentState s \<and> mCapMode s' = mCapMode s \<and>
         mSensorIndex s' = mSensorIndex s"
proof (cases "zoomAlreadyApplied tuna s index")
  case True
  with assms show ?thesis by (simp add: doZoom_skips)
next
  case False
  with assms show ?thesis
    by (auto simp add: doZoom_not_skipped split: if_splits sum.splits)
qed

lemma doZoom_events:
  assumes "doZoom tuna omx_ok index s = Inr (ret, evs, s')"
  shows "notifications evs = [] \<and> SetState_CAMERA_STOP_SMOOTH_ZOOM \<notin> set evs \<and>
         (evs = [] \<or> (\<exists>z. evs = [OMX_SetConfig_DigitalZoom z z omx_ok]))"
proof (cases "zoomAlreadyApplied tuna s index")
  case True
  with assms show ?thesis by (simp add: doZoom_skips)
next
  case False
  with assms show ?thesis
    by (auto simp add: doZoom_not_skipped split: if_splits sum.splits)
qed

lemma zoomAlreadyApplied_after_write:
  "zoomAlreadyApplied tuna ((zoomContextRecorded tuna s)\<lparr>mPreviousZoomIndx := index\<rparr>) index"
  by (simp add: zoomAlreadyApplied_def zoomContextRecorded_def curZoomModeIsVideo_def)

lemma doZoom_NO_ERROR:
  assumes "doZoom tuna omx_ok index s = Inr (NO_ERROR, evs, s')"
  shows "zoomAlreadyApplied tuna s' index"
proof (cases "zoomAlreadyApplied tuna s index")
  case True
  with assms show ?thesis by (simp add: doZoom_skips)
next
  case False
  with assms show ?thesis
    by (auto simp add: doZoom_not_skipped zoomAlreadyApplied_after_write
        split: if_splits sum.splits)
qed

lemma doZoom_not_skipped_NO_ERROR:
  assumes "\<not> zoomAlreadyApplied tuna s index"
    and "doZoom tuna omx_ok index s = Inr (NO_ERROR, evs, s')"
  shows "\<exists>z. evs = [OMX_SetConfig_DigitalZoom z z True]"
  using assms
  by (auto simp add: doZoom_not_skipped split: if_splits sum.splits)

lemma zoomAlreadyApplied_same_context:
  assumes "zoomAlreadyApplied tuna s index"
    and "(m = VIDEO_MODE \<or> m = VIDEO_MODE_HQ) = curZoomModeIsVideo s"
  shows "zoomAlreadyApplied tuna (s\<lparr>mCapMode := m\<rparr>) index"
  using assms by (auto simp add: zoomAlreadyApplied_def curZoomModeIsVideo_def split: if_splits)

lemma doZoom_rejected_write:
  assumes "doZoom tuna False index s = Inr (ret, evs, s1)" "hardwareWrites evs \<noteq> []"
  shows "\<not> zoomAlreadyApplied tuna s index \<and> ret = - 1 \<and> s1 = zoomContextRecorded tuna s \<and>
         (\<exists>z. getZoomStep tuna s1 index = Inr z \<and> evs = [OMX_SetConfig_DigitalZoom z z False]) \<and>
         mComponentState s \<noteq> OMX_StateInvalid \<and> \<not> zoomIndexRejected s index"
proof (cases "zoomAlreadyApplied tuna s index")
  case True
  with assms show ?thesis by (simp add: doZoom_skips)
next
  case False
  with assms show ?thesis
    by (auto simp add: doZoom_not_skipped split: if_splits sum.splits)
qed

lemma zoomAlreadyApplied_index:
  "zoomAlreadyApplied tuna s index \<Longrightarrow> mPreviousZoomIndx s = index"
  by (simp add: zoomAlreadyApplied_def split: if_splits)

lemma zoomAlreadyApplied_cong:
  assumes "mPreviousZoomIndx a = mPreviousZoomIndx b" "mCapMode a = mCapMode b"
    "mSensorIndex a = mSensorIndex b" "mPrevZoomModeIsVideo a = mPrevZoomModeIsVideo b"
    "mPrevZoomSensorIndex a = mPrevZoomSensorIndex b"
  shows "zoomAlreadyApplied tuna a index = zoomAlreadyApplied tuna b index"
  using assms by (simp add: zoomAlreadyApplied_def curZoomModeIsVideo_def)

lemma getZoomStep_cong:
  assumes "mSensorIndex a = mSensorIndex b" "mPrevZoomModeIsVideo a = mPrevZoomModeIsVideo b"
  shows "getZoomStep tuna a index = getZoomStep tuna b index"
  using assms by (simp add: getZoomStep_def)

lemma doZoom_status:
  assumes "doZoom tuna omx_ok index s = Inr (ret, evs, s')"
  shows "ret = (if zoomAlreadyApplied tuna s index then NO_ERROR
                else if zoomIndexRejected s index then - EINVAL
                else if mComponentState s = OMX_StateInvalid then - 1
                else if omx_ok then NO_ERROR else - 1)"
proof (cases "zoomAlreadyApplied tuna s index")
  case True
  with assms show ?thesis by (simp add: doZoom_skips)
next
  case False
  with assms show ?thesis
    by (auto simp add: doZoom_not_skipped split: if_splits sum.splits)
qed

lemma doZoom_write_event:
  assumes "doZoom tuna omx_ok index s = Inr (ret, evs, s')"
    and "\<not> zoomAlreadyApplied tuna s index" "\<not> zoomIndexRejected s index"
    "mComponentState s \<noteq> OMX_StateInvalid"
  shows "\<exists>z. getZoomStep tuna (zoomContextRecorded tuna s) index = Inr z \<and>
             evs = [OMX_SetConfig_DigitalZoom z z omx_ok]"
  using assms by (auto simp add: doZoom_not_skipped split: if_splits sum.splits)

lemma doZoom_no_write:
  assumes "doZoom tuna omx_ok index s = Inr (ret, evs, s')"
    and "zoomAlreadyApplied tuna s index \<or> mComponentState s = OMX_StateInvalid"
  shows "evs = []"
proof (cases "zoomAlreadyApplied tuna s index")
  case True
  with assms show ?thesis by (simp add: doZoom_skips)
next
  case False
  with assms show ?thesis
    by (auto simp add: doZoom_not_skipped split: if_splits sum.splits)
qed

subsection \<open>setParametersZoom\<close>

text \<open>
  C3, as amended: a requested index outside [0, mMaxZoomSupported) makes setParametersZoom
  leave every member unchanged and reach no collaborator, and the call returns NO_ERROR:
  the function has no error path, its status is never assigned after initialisation.
\<close>

theorem setParametersZoom_out_of_range_ignored:
  assumes "reqZoom r < 0 \<or> mMaxZoomSupported s \<le> reqZoom r"
  shows "setParametersZoom tuna r s = Inr (NO_ERROR, [], s)"
  using assms by (auto simp add: setParametersZoom_def Let_def)

theorem setParametersZoom_out_of_range_ignored_witness:
  "setParametersZoom True \<lparr>reqZoomActive = False, reqZoom = - 1, reqOmxOk = True\<rparr> (idleAdapter 61)
     = Inr (NO_ERROR, [], idleAdapter 61)"
  using setParametersZoom_out_of_range_ignored
    [of "\<lparr>reqZoomActive = False, reqZoom = - 1, reqOmxOk = True\<rparr>" "idleAdapter 61" True]
  by simp

text \<open>
  The scenario "setZoom(5) with maxZoomSupported = 3": the index is left unchanged, but
  the call does not fail.
\<close>

theorem setParametersZoom_out_of_range_counterexample:
  "setParametersZoom False \<lparr>reqZoomActive = False, reqZoom = 5, reqOmxOk = True\<rparr> (idleAdapter 3)
     = Inr (NO_ERROR, [], idleAdapter 3)
   \<and> NO_ERROR \<noteq> - EINVAL"
  by (simp add: setParametersZoom_def idleAdapter_def)

text \<open>
  C4, as amended: while the adapter state has ZOOM_ACTIVE set, setParametersZoom changes no
  member, reaches no collaborator and returns NO_ERROR, whatever index is requested. No
  busy status exists in the function.
\<close>

theorem setParametersZoom_zoom_active_ignored:
  assumes "reqZoomActive r"
  shows "setParametersZoom tuna r s = Inr (NO_ERROR, [], s)"
  using assms by (simp add: setParametersZoom_def)

theorem setParametersZoom_zoom_active_ignored_witness:
  "setParametersZoom True \<lparr>reqZoomActive = True, reqZoom = 9, reqOmxOk = True\<rparr> (idleAdapter 61)
     = Inr (NO_ERROR, [], idleAdapter 61)"
  using setParametersZoom_zoom_active_ignored
    [of "\<lparr>reqZoomActive = True, reqZoom = 9, reqOmxOk = True\<rparr>" True "idleAdapter 61"]
  by simp

text \<open>A valid index requested during a smooth zoom: ignored, and reported as success.\<close>

theorem setParametersZoom_zoom_active_counterexample:
  "setParametersZoom False \<lparr>reqZoomActive = True, reqZoom = 2, reqOmxOk = True\<rparr> (idleAdapter 61)
     = Inr (NO_ERROR, [], idleAdapter 61)"
  by (simp add: setParametersZoom_def)

subsection \<open>doZoom and stopSmoothZoom\<close>

text \<open>
  C8, as amended: getZoomStep does not check the index. For an index within [0, ZOOM_STAGES)
  it returns a defined scale factor between 1.0 and 8.0 in 16.16 fixed point (the table
  entry, or the sensor's video minimum at index 0 in the CAMERAHAL_TUNA build); for any
  other index it reads outside the table. The range check is the one of its caller: doZoom,
  when the early return does not apply, answers an index outside [0, mMaxZoomSupported)
  with -EINVAL without consulting the table, so that no read outside the table happens as
  long as mMaxZoomSupported does not exceed ZOOM_STAGES. Both statements about doZoom are
  for a mMaxZoomSupported that is an int above INT_MIN: at INT_MIN the subtraction of the
  range test overflows.
\<close>

theorem getZoomStep_unchecked_range_guarded_by_doZoom:
  "(0 \<le> index \<and> index < ZOOM_STAGES \<longrightarrow>
      (\<exists>z. getZoomStep tuna s index = Inr z \<and> 65536 \<le> z \<and> z \<le> 524288 \<and>
           z = (if tuna \<and> index = 0 \<and> mPrevZoomModeIsVideo s
                then (if mSensorIndex s = 1 then FrontSensorVideoMinZoom
                      else BackSensorVideoMinZoom)
                else ZOOM_STEPS ! nat index))) \<and>
   (index < 0 \<or> ZOOM_STAGES \<le> index \<longrightarrow> getZoomStep tuna s index = Inl OutOfBoundsRead) \<and>
   (INT_MIN < mMaxZoomSupported s \<and> mMaxZoomSupported s \<le> INT_MAX \<and>
    (index < 0 \<or> mMaxZoomSupported s \<le> index) \<and> \<not> zoomAlreadyApplied tuna s index \<longrightarrow>
      (\<exists>s'. doZoom tuna omx_ok index s = Inr (- EINVAL, [], s'))) \<and>
   (INT_MIN < mMaxZoomSupported s \<and> mMaxZoomSupported s \<le> ZOOM_STAGES \<longrightarrow>
      (\<exists>ret evs s'. doZoom tuna omx_ok index s = Inr (ret, evs, s')))"
proof (intro conjI impI)
  assume r: "0 \<le> index \<and> index < ZOOM_STAGES"
  then have "0 \<le> index" "index < ZOOM_STAGES" by simp_all
  from getZoomStep_in_range [OF this, of tuna s]
  show "\<exists>z. getZoomStep tuna s index = Inr z \<and> 65536 \<le> z \<and> z \<le> 524288 \<and>
           z = (if tuna \<and> index = 0 \<and> mPrevZoomModeIsVideo s
                then (if mSensorIndex s = 1 then FrontSensorVideoMinZoom
                      else BackSensorVideoMinZoom)
                else ZOOM_STEPS ! nat index)"
    using r by (auto simp add: getZoomStep_def ZOOM_STEPS_at_def split: if_splits)
next
  assume "index < 0 \<or> ZOOM_STAGES \<le> index"
  then show "getZoomStep tuna s index = Inl OutOfBoundsRead"
    by (auto simp add: getZoomStep_def ZOOM_STEPS_at_def ZOOM_STAGES_def)
next
  assume a: "INT_MIN < mMaxZoomSupported s \<and> mMaxZoomSupported s \<le> INT_MAX \<and>
    (index < 0 \<or> mMaxZoomSupported s \<le> index) \<and> \<not> zoomAlreadyApplied tuna s index"
  then have "zoomIndexRejected s index" by (simp add: zoomIndexRejected_exact)
  with a show "\<exists>s'. doZoom tuna omx_ok index s = Inr (- EINVAL, [], s')"
    by (simp add: doZoom_not_skipped)
next
  assume "INT_MIN < mMaxZoomSupported s \<and> mMaxZoomSupported s \<le> ZOOM_STAGES"
  then show "\<exists>ret evs s'. doZoom tuna omx_ok index s = Inr (ret, evs, s')"
    by (simp add: doZoom_no_fault)
qed

theorem getZoomStep_unchecked_range_guarded_by_doZoom_witness:
  "getZoomStep False (idleAdapter 61) 60 = Inr 524288 \<and>
   getZoomStep False (idleAdapter 61) (- 1) = Inl OutOfBoundsRead \<and>
   (\<exists>s'. doZoom False True 61 (idleAdapter 61) = Inr (- EINVAL, [], s'))"
proof -
  have a: "\<not> zoomAlreadyApplied False (idleAdapter 61) 61"
    by (simp add: zoomAlreadyApplied_def idleAdapter_def)
  have b: "mMaxZoomSupported (idleAdapter 61) = 61" by (simp add: idleAdapter_def)
  have c: "ZOOM_STEPS ! nat 60 = 524288" by (simp add: ZOOM_STEPS_def)
  from getZoomStep_unchecked_range_guarded_by_doZoom [of 60 False "idleAdapter 61" True]
    getZoomStep_unchecked_range_guarded_by_doZoom [of "- 1" False "idleAdapter 61" True]
    getZoomStep_unchecked_range_guarded_by_doZoom [of 61 False "idleAdapter 61" True]
    a b c
  show ?thesis by (simp add: ZOOM_STAGES_def INT_MIN_def INT_MAX_def)
qed

text \<open>The first index past the table, and a negative one: both are read, not rejected.\<close>

theorem getZoomStep_out_of_range_counterexample:
  "getZoomStep False (idleAdapter 61) 61 = Inl OutOfBoundsRead \<and>
   getZoomStep True (idleAdapter 61) (- 1) = Inl OutOfBoundsRead"
  by (simp add: getZoomStep_def ZOOM_STEPS_at_def ZOOM_STAGES_def)

text \<open>
  C6, as amended: when the first of two consecutive doZoom calls with the same index returns
  NO_ERROR, the second call, made in the same quirk context (same sensor, capture mode of
  the same video or non-video class), is a no-op returning NO_ERROR, and the pair issues
  one hardware write if the first call was not itself skipped by the early return, and
  none if it was.
\<close>

theorem doZoom_twice_second_is_noop:
  assumes first: "doZoom tuna ok1 index s = Inr (NO_ERROR, evs1, s1)"
    and ctx: "(m = VIDEO_MODE \<or> m = VIDEO_MODE_HQ) = curZoomModeIsVideo s1"
  shows "doZoom tuna ok2 index (s1\<lparr>mCapMode := m\<rparr>) = Inr (NO_ERROR, [], s1\<lparr>mCapMode := m\<rparr>) \<and>
         length (hardwareWrites evs1) = (if zoomAlreadyApplied tuna s index then 0 else 1)"
proof
  from doZoom_NO_ERROR [OF first] have "zoomAlreadyApplied tuna s1 index" .
  from zoomAlreadyApplied_same_context [OF this ctx]
  show "doZoom tuna ok2 index (s1\<lparr>mCapMode := m\<rparr>) = Inr (NO_ERROR, [], s1\<lparr>mCapMode := m\<rparr>)"
    by (rule doZoom_skips)
next
  show "length (hardwareWrites evs1) = (if zoomAlreadyApplied tuna s index then 0 else 1)"
  proof (cases "zoomAlreadyApplied tuna s index")
    case True
    from doZoom_skips [OF True, of ok1] first have "evs1 = []" by simp
    with True show ?thesis by simp
  next
    case False
    from doZoom_not_skipped_NO_ERROR [OF False first]
    obtain z where "evs1 = [OMX_SetConfig_DigitalZoom z z True]" ..
    with False show ?thesis by simp
  qed
qed

theorem doZoom_twice_second_is_noop_witness:
  "doZoom False True 3 (idleAdapter 61)
     = Inr (NO_ERROR, [OMX_SetConfig_DigitalZoom 72745 72745 True],
            (idleAdapter 61)\<lparr>mPreviousZoomIndx := 3\<rparr>)
   \<and> doZoom False True 3 ((idleAdapter 61)\<lparr>mPreviousZoomIndx := 3, mCapMode := HIGH_SPEED\<rparr>)
     = Inr (NO_ERROR, [], (idleAdapter 61)\<lparr>mPreviousZoomIndx := 3, mCapMode := HIGH_SPEED\<rparr>)"
proof -
  have first: "doZoom False True 3 (idleAdapter 61)
     = Inr (NO_ERROR, [OMX_SetConfig_DigitalZoom 72745 72745 True],
            (idleAdapter 61)\<lparr>mPreviousZoomIndx := 3\<rparr>)"
    by (simp add: doZoom_def zoomIndexRejected_def int32_wrap_def INT_MAX_def zoomAlreadyApplied_def
      zoomContextRecorded_def idleAdapter_def getZoomStep_def
        ZOOM_STEPS_at_def ZOOM_STAGES_def ZOOM_STEPS_def)
  have ctx: "(HIGH_SPEED = VIDEO_MODE \<or> HIGH_SPEED = VIDEO_MODE_HQ)
               = curZoomModeIsVideo ((idleAdapter 61)\<lparr>mPreviousZoomIndx := 3\<rparr>)"
    by (simp add: curZoomModeIsVideo_def idleAdapter_def)
  from doZoom_twice_second_is_noop [OF first ctx, of True] first show ?thesis by simp
qed

text \<open>
  Two calls with the same index do not always issue exactly one write: none is issued when
  the index is the one already applied, and two are issued when the component rejects the
  first write (the second call is then no no-op).
\<close>

theorem doZoom_twice_counterexample:
  "doZoom False True 0 (idleAdapter 61) = Inr (NO_ERROR, [], idleAdapter 61)
   \<and> doZoom False False 3 (idleAdapter 61)
       = Inr (- 1, [OMX_SetConfig_DigitalZoom 72745 72745 False], idleAdapter 61)
   \<and> doZoom False True 3 (idleAdapter 61)
       = Inr (NO_ERROR, [OMX_SetConfig_DigitalZoom 72745 72745 True],
              (idleAdapter 61)\<lparr>mPreviousZoomIndx := 3\<rparr>)"
  by (simp add: doZoom_def zoomIndexRejected_def int32_wrap_def INT_MAX_def zoomAlreadyApplied_def
      zoomContextRecorded_def idleAdapter_def getZoomStep_def
      ZOOM_STEPS_at_def ZOOM_STAGES_def ZOOM_STEPS_def)

text \<open>
  A rejected write leaves mPreviousZoomIndx unchanged, and the next call with the same index
  writes again, in the build without CAMERAHAL_TUNA, and with it unless the index and the
  index applied before are both 0.
\<close>

lemma doZoom_rejected_write_retried:
  assumes first: "doZoom tuna False index s = Inr (ret, evs, s1)"
    and wrote: "hardwareWrites evs \<noteq> []"
    and unaffected: "\<not> tuna \<or> index \<noteq> 0 \<or> mPreviousZoomIndx s \<noteq> 0"
  shows "ret = - 1 \<and> mPreviousZoomIndx s1 = mPreviousZoomIndx s \<and>
         (\<exists>z ret2 s2. doZoom tuna ok2 index s1
                        = Inr (ret2, [OMX_SetConfig_DigitalZoom z z ok2], s2))"
proof -
  from doZoom_rejected_write [OF first wrote]
  obtain z where na: "\<not> zoomAlreadyApplied tuna s index" and ret: "ret = - 1"
    and s1: "s1 = zoomContextRecorded tuna s" and z: "getZoomStep tuna s1 index = Inr z"
    and ok: "mComponentState s \<noteq> OMX_StateInvalid" "\<not> zoomIndexRejected s index"
    by blast
  from na unaffected have na1: "\<not> zoomAlreadyApplied tuna s1 index"
    unfolding s1 by (auto simp add: zoomAlreadyApplied_def zoomContextRecorded_context
        split: if_splits)
  from ok have ok1: "mComponentState s1 \<noteq> OMX_StateInvalid" "\<not> zoomIndexRejected s1 index"
    unfolding s1 by (simp_all add: zoomIndexRejected_def)
  from z have "getZoomStep tuna (zoomContextRecorded tuna s1) index = Inr z"
    unfolding s1 by (simp add: zoomContextRecorded_idem)
  with ok1 have "\<exists>ret2 s2. doZoom tuna ok2 index s1
                        = Inr (ret2, [OMX_SetConfig_DigitalZoom z z ok2], s2)"
    by (simp add: doZoom_not_skipped [OF na1])
  moreover have "mPreviousZoomIndx s1 = mPreviousZoomIndx s" unfolding s1 by simp
  ultimately show ?thesis using ret by blast
qed

text \<open>
  C7 fails in the CAMERAHAL_TUNA build at index 0: when index 0 is already the applied one
  and the capture mode class or the sensor has changed, doZoom records the new context
  before it writes. If the component rejects that write, doZoom returns -1 and leaves
  mPreviousZoomIndx unchanged, but the next call with index 0 finds the index and the
  recorded context both matching and returns NO_ERROR without writing: the rejected write
  is never retried. mMaxZoomSupported is a positive int.
\<close>

theorem doZoom_tuna_rejected_write_at_index_0_not_retried:
  assumes prev: "mPreviousZoomIndx s = 0"
    and switched: "curZoomModeIsVideo s \<noteq> mPrevZoomModeIsVideo s \<or>
         mSensorIndex s \<noteq> mPrevZoomSensorIndex s"
    and valid: "mComponentState s \<noteq> OMX_StateInvalid"
    and range: "0 < mMaxZoomSupported s" "mMaxZoomSupported s \<le> INT_MAX"
  shows "\<exists>z s1. doZoom True False 0 s = Inr (- 1, [OMX_SetConfig_DigitalZoom z z False], s1) \<and>
           mPreviousZoomIndx s1 = mPreviousZoomIndx s \<and>
           doZoom True ok2 0 s1 = Inr (NO_ERROR, [], s1)"
proof -
  from prev switched have na: "\<not> zoomAlreadyApplied True s 0"
    by (auto simp add: zoomAlreadyApplied_def)
  have "(0::int) \<le> 0" "0 < ZOOM_STAGES" by (simp_all add: ZOOM_STAGES_def)
  from getZoomStep_in_range [OF this]
  obtain z where z: "getZoomStep True (zoomContextRecorded True s) 0 = Inr z" by blast
  from range have "\<not> zoomIndexRejected s 0"
    by (simp add: zoomIndexRejected_exact INT_MIN_def)
  with z valid have first: "doZoom True False 0 s
      = Inr (- 1, [OMX_SetConfig_DigitalZoom z z False], zoomContextRecorded True s)"
    by (simp add: doZoom_not_skipped [OF na])
  from prev have "zoomAlreadyApplied True (zoomContextRecorded True s) 0"
    by (simp add: zoomAlreadyApplied_def zoomContextRecorded_context)
  then have "doZoom True ok2 0 (zoomContextRecorded True s)
      = Inr (NO_ERROR, [], zoomContextRecorded True s)"
    by (rule doZoom_skips)
  with first show ?thesis by simp
qed

theorem doZoom_tuna_rejected_write_at_index_0_not_retried_witness:
  "doZoom True False 0 ((idleAdapter 61)\<lparr>mCapMode := VIDEO_MODE\<rparr>)
     = Inr (- 1, [OMX_SetConfig_DigitalZoom 66304 66304 False],
            (idleAdapter 61)\<lparr>mCapMode := VIDEO_MODE, mPrevZoomModeIsVideo := True\<rparr>)
   \<and> doZoom True True 0 ((idleAdapter 61)\<lparr>mCapMode := VIDEO_MODE, mPrevZoomModeIsVideo := True\<rparr>)
     = Inr (NO_ERROR, [],
            (idleAdapter 61)\<lparr>mCapMode := VIDEO_MODE, mPrevZoomModeIsVideo := True\<rparr>)"
  using doZoom_tuna_rejected_write_at_index_0_not_retried
    [of "(idleAdapter 61)\<lparr>mCapMode := VIDEO_MODE\<rparr>" True]
  by (simp add: doZoom_def zoomIndexRejected_def int32_wrap_def INT_MAX_def zoomAlreadyApplied_def
      zoomContextRecorded_def idleAdapter_def getZoomStep_def
      curZoomModeIsVideo_def BackSensorVideoMinZoom_def)

text \<open>
  C9: when the index equals mPreviousZoomIndx and the quirk context is unchanged, doZoom
  returns NO_ERROR without touching the hardware or the session, whatever the component
  state and whether or not the index is within the supported range: the early return comes
  before the accumulated error code is looked at.
\<close>

theorem doZoom_already_applied_bypasses_checks:
  assumes "mPreviousZoomIndx s = index"
    and "tuna \<longrightarrow> curZoomModeIsVideo s = mPrevZoomModeIsVideo s \<and>
                  mSensorIndex s = mPrevZoomSensorIndex s"
  shows "doZoom tuna omx_ok index s = Inr (NO_ERROR, [], s)"
  using assms by (simp add: doZoom_def zoomAlreadyApplied_def Let_def)

theorem doZoom_already_applied_bypasses_checks_witness:
  "doZoom True False 75
     ((idleAdapter 61)\<lparr>mPreviousZoomIndx := 75, mComponentState := OMX_StateInvalid\<rparr>)
   = Inr (NO_ERROR, [],
          (idleAdapter 61)\<lparr>mPreviousZoomIndx := 75, mComponentState := OMX_StateInvalid\<rparr>)
   \<and> mComponentState
       ((idleAdapter 61)\<lparr>mPreviousZoomIndx := 75, mComponentState := OMX_StateInvalid\<rparr>)
     = OMX_StateInvalid
   \<and> \<not> (75 < mMaxZoomSupported
       ((idleAdapter 61)\<lparr>mPreviousZoomIndx := 75, mComponentState := OMX_StateInvalid\<rparr>))"
  using doZoom_already_applied_bypasses_checks
    [of "(idleAdapter 61)\<lparr>mPreviousZoomIndx := 75, mComponentState := OMX_StateInvalid\<rparr>"
        75 True False]
  by (simp add: idleAdapter_def curZoomModeIsVideo_def)

text \<open>
  C10: stopSmoothZoom called with mCurrentZoomIdx equal to mTargetZoomIdx returns NO_ERROR
  and changes no member, so mZoomInc and mReturnZoomStatus keep their values and any later
  advanceZoom runs on the very same session.
\<close>

theorem stopSmoothZoom_at_target_unchanged:
  assumes "mCurrentZoomIdx s = mTargetZoomIdx s"
  shows "stopSmoothZoom s = (NO_ERROR, s) \<and>
         mZoomInc (snd (stopSmoothZoom s)) = mZoomInc s \<and>
         mReturnZoomStatus (snd (stopSmoothZoom s)) = mReturnZoomStatus s \<and>
         advanceZoom tuna t (snd (stopSmoothZoom s)) = advanceZoom tuna t s"
  using assms by (simp add: stopSmoothZoom_def)

theorem stopSmoothZoom_at_target_unchanged_witness:
  "stopSmoothZoom ((idleAdapter 61)\<lparr>mCurrentZoomIdx := 7, mTargetZoomIdx := 7, mZoomInc := 1\<rparr>)
   = (NO_ERROR, (idleAdapter 61)\<lparr>mCurrentZoomIdx := 7, mTargetZoomIdx := 7, mZoomInc := 1\<rparr>)"
  using stopSmoothZoom_at_target_unchanged
    [of "(idleAdapter 61)\<lparr>mCurrentZoomIdx := 7, mTargetZoomIdx := 7, mZoomInc := 1\<rparr>"]
  by (simp add: idleAdapter_def)

subsection \<open>advanceZoom\<close>

lemma advanceZoom_update_result:
  assumes "mMaxZoomSupported s \<le> ZOOM_STAGES" "INT_MIN < mMaxZoomSupported s"
  shows "\<exists>evs s'. advanceZoom_update tuna t s = Inr (evs, s') \<and>
           mCurrentZoomIdx s' = mCurrentZoomIdx s \<and> mTargetZoomIdx s' = mTargetZoomIdx s \<and>
           mReturnZoomStatus s' = mReturnZoomStatus s \<and>
           mMaxZoomSupported s' = mMaxZoomSupported s \<and>
           mComponentState s' = mComponentState s \<and>
           \<not> mZoomUpdate s' \<and> mZoomUpdating s' = mZoomUpdate s \<and>
           notifications evs = [] \<and> SetState_CAMERA_STOP_SMOOTH_ZOOM \<notin> set evs \<and>
           (if mZoomUpdate s
            then (\<exists>ret. doZoom tuna (omxUpdateOk t) (mTargetZoomIdx s) s
                          = Inr (ret, evs, s'\<lparr>mZoomUpdate := True, mZoomUpdating := mZoomUpdating s\<rparr>))
            else evs = [] \<and> mPreviousZoomIndx s' = mPreviousZoomIndx s)"
proof (cases "mZoomUpdate s")
  case True
  from doZoom_no_fault [OF assms, of tuna "omxUpdateOk t" "mTargetZoomIdx s"]
  obtain ret evs s1 where d: "doZoom tuna (omxUpdateOk t) (mTargetZoomIdx s) s = Inr (ret, evs, s1)"
    by blast
  from doZoom_frame [OF d] doZoom_events [OF d] True d show ?thesis
    by (simp add: advanceZoom_update_def)
next
  case False
  then show ?thesis by (simp add: advanceZoom_update_def)
qed

text \<open>
  C2: after stopSmoothZoom has been called with mCurrentZoomIdx different from
  mTargetZoomIdx, the next advanceZoom moves mCurrentZoomIdx by exactly one in the direction
  the target had at the time of the stop, sets mTargetZoomIdx to the new index, clears
  mReturnZoomStatus, hands the new index to doZoom and notifies the subscribers once, with
  the new index and the final flag set, however far the target was. The status returned
  is the one of that doZoom; when it is NO_ERROR the applied index is the new one, and when
  the new index needs a write (not already applied, within range, component valid) the
  first event is the write of its scale factor. The indices are ints and
  mMaxZoomSupported lies above INT_MIN and within the table.
\<close>

theorem stopSmoothZoom_then_advanceZoom_settles:
  assumes ne: "mCurrentZoomIdx s \<noteq> mTargetZoomIdx s"
    and cfg: "mMaxZoomSupported s \<le> ZOOM_STAGES" and low: "INT_MIN < mMaxZoomSupported s"
    and ints: "int32 (mCurrentZoomIdx s)" "int32 (mTargetZoomIdx s)"
    and new: "new = mCurrentZoomIdx s + (if mCurrentZoomIdx s < mTargetZoomIdx s then 1 else - 1)"
  shows "\<exists>ret evs s2.
           fst (stopSmoothZoom s) = NO_ERROR \<and>
           advanceZoom tuna t (snd (stopSmoothZoom s)) = Inr (ret, evs, s2) \<and>
           mCurrentZoomIdx s2 = new \<and> mTargetZoomIdx s2 = new \<and> \<not> mReturnZoomStatus s2 \<and>
           notifications evs = [(new, True)] \<and>
           ret = (if zoomAlreadyApplied tuna s new then NO_ERROR
                  else if new < 0 \<or> mMaxZoomSupported s \<le> new then - EINVAL
                  else if mComponentState s = OMX_StateInvalid then - 1
                  else if omxStepOk t then NO_ERROR else - 1) \<and>
           (ret = NO_ERROR \<longrightarrow> mPreviousZoomIndx s2 = new) \<and>
           (\<not> zoomAlreadyApplied tuna s new \<and> 0 \<le> new \<and> new < mMaxZoomSupported s \<and>
            mComponentState s \<noteq> OMX_StateInvalid \<longrightarrow>
              (\<exists>z. getZoomStep tuna (zoomContextRecorded tuna s) new = Inr z \<and>
                   hd evs = OMX_SetConfig_DigitalZoom z z (omxStepOk t)))"
proof -
  define s1 where "s1 = s\<lparr>mZoomInc := (if mCurrentZoomIdx s < mTargetZoomIdx s then 1 else - 1),
                          mReturnZoomStatus := True\<rparr>"
  define sA where "sA = s1\<lparr>mCurrentZoomIdx := new, mTargetZoomIdx := new,
                           mReturnZoomStatus := False\<rparr>"
  from ne have stop: "stopSmoothZoom s = (NO_ERROR, s1)"
    by (simp add: stopSmoothZoom_def s1_def)
  have maxA: "mMaxZoomSupported sA \<le> ZOOM_STAGES" "INT_MIN < mMaxZoomSupported sA"
    using cfg low by (simp_all add: sA_def s1_def)
  have wrap: "int32_wrap (mCurrentZoomIdx s +
                (if mCurrentZoomIdx s < mTargetZoomIdx s then 1 else - 1)) = new"
    using int32_step(1) [OF ints ne] new by simp
  have rej: "zoomIndexRejected sA new \<longleftrightarrow> new < 0 \<or> mMaxZoomSupported s \<le> new"
    using zoomIndexRejected_exact [OF low ZOOM_STAGES_INT_MAX [OF cfg], of new]
      zoomIndexRejected_cong [of sA s new] by (simp add: sA_def s1_def)
  from doZoom_no_fault [OF maxA, of tuna "omxStepOk t" new]
  obtain ret evs s3 where d: "doZoom tuna (omxStepOk t) new sA = Inr (ret, evs, s3)" by blast
  note fr = doZoom_frame [OF d] and ev = doZoom_events [OF d]
  have step: "advanceZoom_step tuna t s1 = Inr (ret, evs @ [NotifyZoomSubscribers new True], s3)"
    using d fr wrap by (simp add: advanceZoom_step_def s1_def sA_def Let_def)
  have max3: "mMaxZoomSupported s3 \<le> ZOOM_STAGES" "INT_MIN < mMaxZoomSupported s3"
    using fr maxA by simp_all
  from advanceZoom_update_result [OF max3, of tuna t]
  obtain evs' s4 where u: "advanceZoom_update tuna t s3 = Inr (evs', s4)"
    and u_cur: "mCurrentZoomIdx s4 = mCurrentZoomIdx s3" "mTargetZoomIdx s4 = mTargetZoomIdx s3"
       "mReturnZoomStatus s4 = mReturnZoomStatus s3"
    and u_ev: "notifications evs' = []"
    and u_hw: "if mZoomUpdate s3
            then (\<exists>r. doZoom tuna (omxUpdateOk t) (mTargetZoomIdx s3) s3
                          = Inr (r, evs', s4\<lparr>mZoomUpdate := True, mZoomUpdating := mZoomUpdating s3\<rparr>))
            else evs' = [] \<and> mPreviousZoomIndx s4 = mPreviousZoomIndx s3"
    by blast
  have adv: "advanceZoom tuna t s1 = Inr (ret, (evs @ [NotifyZoomSubscribers new True]) @ evs', s4)"
    using step u by (simp add: advanceZoom_def)
  have same: "zoomAlreadyApplied tuna sA new = zoomAlreadyApplied tuna s new"
    by (rule zoomAlreadyApplied_cong) (simp_all add: sA_def s1_def)
  have status: "ret = (if zoomAlreadyApplied tuna s new then NO_ERROR
                  else if new < 0 \<or> mMaxZoomSupported s \<le> new then - EINVAL
                  else if mComponentState s = OMX_StateInvalid then - 1
                  else if omxStepOk t then NO_ERROR else - 1)"
    using doZoom_status [OF d] same rej by (simp add: sA_def s1_def)
  have applied: "mPreviousZoomIndx s4 = new" if ok: "ret = NO_ERROR"
  proof -
    from d ok have a3: "zoomAlreadyApplied tuna s3 new" using doZoom_NO_ERROR by blast
    then have p3: "mPreviousZoomIndx s3 = new" by (rule zoomAlreadyApplied_index)
    show ?thesis
    proof (cases "mZoomUpdate s3")
      case True
      have tgt3: "mTargetZoomIdx s3 = new" using fr by (simp add: sA_def)
      from u_hw True tgt3 doZoom_skips [OF a3, of "omxUpdateOk t"]
      have "s4\<lparr>mZoomUpdate := True, mZoomUpdating := mZoomUpdating s3\<rparr> = s3" by auto
      then have "mPreviousZoomIndx (s4\<lparr>mZoomUpdate := True, mZoomUpdating := mZoomUpdating s3\<rparr>)
                   = mPreviousZoomIndx s3" by simp
      with p3 show ?thesis by simp
    next
      case False
      with u_hw p3 show ?thesis by simp
    qed
  qed
  have written: "\<exists>z. getZoomStep tuna (zoomContextRecorded tuna s) new = Inr z \<and>
                   hd ((evs @ [NotifyZoomSubscribers new True]) @ evs')
                     = OMX_SetConfig_DigitalZoom z z (omxStepOk t)"
    if w: "\<not> zoomAlreadyApplied tuna s new \<and> 0 \<le> new \<and> new < mMaxZoomSupported s \<and>
            mComponentState s \<noteq> OMX_StateInvalid"
  proof -
    from w same rej have "\<not> zoomAlreadyApplied tuna sA new" "\<not> zoomIndexRejected sA new"
      "mComponentState sA \<noteq> OMX_StateInvalid" by (simp_all add: sA_def s1_def)
    from doZoom_write_event [OF d this]
    obtain z where z: "getZoomStep tuna (zoomContextRecorded tuna sA) new = Inr z"
      and e: "evs = [OMX_SetConfig_DigitalZoom z z (omxStepOk t)]" by blast
    have "getZoomStep tuna (zoomContextRecorded tuna sA) new
            = getZoomStep tuna (zoomContextRecorded tuna s) new"
      by (rule getZoomStep_cong)
         (simp_all add: zoomContextRecorded_context curZoomModeIsVideo_def sA_def s1_def)
    with z e show ?thesis by simp
  qed
  have cur4: "mCurrentZoomIdx s4 = new" "mTargetZoomIdx s4 = new" "\<not> mReturnZoomStatus s4"
    using u_cur fr by (simp_all add: sA_def)
  have notif: "notifications ((evs @ [NotifyZoomSubscribers new True]) @ evs') = [(new, True)]"
    using ev u_ev by (simp add: notifications_append)
  from stop adv cur4 notif status applied written show ?thesis by auto
qed

theorem stopSmoothZoom_then_advanceZoom_settles_witness:
  "\<exists>ret evs s2.
     advanceZoom False
       \<lparr>zoomActive = False, omxStepOk = True, omxUpdateOk = True, setStateRet = 0,
        commitStateRet = 0, rollbackStateRet = 0\<rparr>
       (snd (stopSmoothZoom ((idleAdapter 61)\<lparr>mCurrentZoomIdx := 3, mTargetZoomIdx := 10,
                                               mPreviousZoomIndx := 3\<rparr>)))
       = Inr (ret, evs, s2) \<and>
     mCurrentZoomIdx s2 = 4 \<and> mTargetZoomIdx s2 = 4 \<and> \<not> mReturnZoomStatus s2 \<and>
     notifications evs = [(4, True)] \<and> ret = NO_ERROR \<and> mPreviousZoomIndx s2 = 4 \<and>
     hd evs = OMX_SetConfig_DigitalZoom 75366 75366 True"
proof -
  let ?s = "(idleAdapter 61)\<lparr>mCurrentZoomIdx := 3, mTargetZoomIdx := 10,
                              mPreviousZoomIndx := 3\<rparr>"
  let ?t = "\<lparr>zoomActive = False, omxStepOk = True, omxUpdateOk = True, setStateRet = 0,
        commitStateRet = 0, rollbackStateRet = 0\<rparr>"
  have ne: "mCurrentZoomIdx ?s \<noteq> mTargetZoomIdx ?s" by (simp add: idleAdapter_def)
  have cfg: "mMaxZoomSupported ?s \<le> ZOOM_STAGES" by (simp add: idleAdapter_def ZOOM_STAGES_def)
  have low: "INT_MIN < mMaxZoomSupported ?s" by (simp add: idleAdapter_def INT_MIN_def)
  have ints: "int32 (mCurrentZoomIdx ?s)" "int32 (mTargetZoomIdx ?s)"
    by (simp_all add: idleAdapter_def int32_def INT_MIN_def INT_MAX_def)
  have new: "4 = mCurrentZoomIdx ?s + (if mCurrentZoomIdx ?s < mTargetZoomIdx ?s then 1 else - 1)"
    by (simp add: idleAdapter_def)
  have z: "getZoomStep False (zoomContextRecorded False ?s) 4 = Inr 75366"
    by (simp add: getZoomStep_def ZOOM_STEPS_at_def ZOOM_STAGES_def ZOOM_STEPS_def)
  have na: "\<not> zoomAlreadyApplied False ?s 4" "mMaxZoomSupported ?s = 61"
    "mComponentState ?s \<noteq> OMX_StateInvalid"
    by (simp_all add: zoomAlreadyApplied_def idleAdapter_def)
  from stopSmoothZoom_then_advanceZoom_settles [OF ne cfg low ints new, of False ?t] z na
  show ?thesis by auto
qed

lemma advanceZoom_smooth_step:
  assumes active: "zoomActive t" and nr: "\<not> mReturnZoomStatus s"
    and ne: "mCurrentZoomIdx s \<noteq> mTargetZoomIdx s"
    and cfg: "mMaxZoomSupported s \<le> ZOOM_STAGES" and low: "INT_MIN < mMaxZoomSupported s"
    and ints: "int32 (mCurrentZoomIdx s)" "int32 (mTargetZoomIdx s)"
    and new: "new = mCurrentZoomIdx s + (if mCurrentZoomIdx s < mTargetZoomIdx s then 1 else - 1)"
  shows "\<exists>ret evs s'. advanceZoom tuna t s = Inr (ret, evs, s') \<and>
           mCurrentZoomIdx s' = new \<and> int32 new \<and> mTargetZoomIdx s' = mTargetZoomIdx s \<and>
           \<not> mReturnZoomStatus s' \<and> mMaxZoomSupported s' = mMaxZoomSupported s \<and>
           mComponentState s' = mComponentState s \<and>
           notifications evs = [(new, new = mTargetZoomIdx s)] \<and>
           (new \<noteq> mTargetZoomIdx s \<longrightarrow> SetState_CAMERA_STOP_SMOOTH_ZOOM \<notin> set evs) \<and>
           (new = mTargetZoomIdx s \<and> mComponentState s \<noteq> OMX_StateInvalid \<and> 0 \<le> new \<and>
            new < mMaxZoomSupported s \<and> omxStepOk t \<longrightarrow>
              SetState_CAMERA_STOP_SMOOTH_ZOOM \<in> set evs)"
proof -
  define sA where "sA = s\<lparr>mZoomInc := (if mCurrentZoomIdx s < mTargetZoomIdx s then 1 else - 1),
                          mCurrentZoomIdx := new\<rparr>"
  have maxA: "mMaxZoomSupported sA \<le> ZOOM_STAGES" "INT_MIN < mMaxZoomSupported sA"
    using cfg low by (simp_all add: sA_def)
  have wrap: "int32_wrap (mCurrentZoomIdx s +
                (if mCurrentZoomIdx s < mTargetZoomIdx s then 1 else - 1)) = new"
    and inew: "int32 new"
    using int32_step [OF ints ne] new by simp_all
  have rej: "zoomIndexRejected sA new \<longleftrightarrow> new < 0 \<or> mMaxZoomSupported s \<le> new"
    using zoomIndexRejected_exact [OF low ZOOM_STAGES_INT_MAX [OF cfg], of new]
      zoomIndexRejected_cong [of sA s new] by (simp add: sA_def)
  from doZoom_no_fault [OF maxA, of tuna "omxStepOk t" new]
  obtain ret evs s3 where d: "doZoom tuna (omxStepOk t) new sA = Inr (ret, evs, s3)" by blast
  note fr = doZoom_frame [OF d] and ev = doZoom_events [OF d]
  have same: "zoomAlreadyApplied tuna sA new = zoomAlreadyApplied tuna s new"
    by (rule zoomAlreadyApplied_cong) (simp_all add: sA_def)
  have status: "ret = (if zoomAlreadyApplied tuna s new then NO_ERROR
                  else if new < 0 \<or> mMaxZoomSupported s \<le> new then - EINVAL
                  else if mComponentState s = OMX_StateInvalid then - 1
                  else if omxStepOk t then NO_ERROR else - 1)"
    using doZoom_status [OF d] same rej by (simp add: sA_def)
  define res where "res =
     (if new = mTargetZoomIdx s
      then (let (ret', evs') = (if ret = NO_ERROR then stopSmoothZoomState t else (ret, []))
            in (ret', evs @ evs' @ [NotifyZoomSubscribers new True],
                s3\<lparr>mReturnZoomStatus := False\<rparr>))
      else (ret, evs @ [NotifyZoomSubscribers new False], s3))"
  have step: "advanceZoom_step tuna t s = Inr res"
    using d fr active nr ne wrap
    by (simp add: advanceZoom_step_def sA_def Let_def res_def split: prod.splits)
  obtain ret1 evs1 s5 where res: "res = (ret1, evs1, s5)" by (cases res)
  have s5: "mCurrentZoomIdx s5 = new" "mTargetZoomIdx s5 = mTargetZoomIdx s"
    "\<not> mReturnZoomStatus s5" "mMaxZoomSupported s5 = mMaxZoomSupported s"
    "mComponentState s5 = mComponentState s"
    using res fr nr by (auto simp add: res_def sA_def Let_def split: if_splits prod.splits)
  have n1: "notifications evs1 = [(new, new = mTargetZoomIdx s)]"
    using res ev
    by (auto simp add: res_def Let_def notifications_append stopSmoothZoomState_def
        split: if_splits prod.splits)
  have no_req: "SetState_CAMERA_STOP_SMOOTH_ZOOM \<notin> set evs1" if "new \<noteq> mTargetZoomIdx s"
    using res ev that by (auto simp add: res_def)
  have req: "SetState_CAMERA_STOP_SMOOTH_ZOOM \<in> set evs1"
    if "new = mTargetZoomIdx s \<and> mComponentState s \<noteq> OMX_StateInvalid \<and> 0 \<le> new \<and>
            new < mMaxZoomSupported s \<and> omxStepOk t"
  proof -
    from that status have "ret = NO_ERROR" by simp
    with res that show ?thesis
      by (auto simp add: res_def Let_def stopSmoothZoomState_def split: if_splits prod.splits)
  qed
  have max5: "mMaxZoomSupported s5 \<le> ZOOM_STAGES" "INT_MIN < mMaxZoomSupported s5"
    using s5 cfg low by simp_all
  from advanceZoom_update_result [OF max5, of tuna t]
  obtain evs' s6 where u: "advanceZoom_update tuna t s5 = Inr (evs', s6)"
    and u_fr: "mCurrentZoomIdx s6 = mCurrentZoomIdx s5" "mTargetZoomIdx s6 = mTargetZoomIdx s5"
       "mReturnZoomStatus s6 = mReturnZoomStatus s5"
       "mMaxZoomSupported s6 = mMaxZoomSupported s5" "mComponentState s6 = mComponentState s5"
    and u_ev: "notifications evs' = []" "SetState_CAMERA_STOP_SMOOTH_ZOOM \<notin> set evs'"
    by blast
  have adv: "advanceZoom tuna t s = Inr (ret1, evs1 @ evs', s6)"
    using step res u by (simp add: advanceZoom_def)
  from adv s5 u_fr u_ev n1 no_req req inew show ?thesis
    by (auto simp add: notifications_append)
qed

text \<open>
  The smooth zoom, by induction on the ticks: from any session with no stop pending whose
  target is within range, as many ticks as the distance to the target, all seeing
  ZOOM_ACTIVE and an accepting component.
\<close>

lemma advanceZoom_ticks_smooth:
  assumes "\<forall>t\<in>set ts. zoomActive t \<and> omxStepOk t"
    and "\<not> mReturnZoomStatus s"
    and "mComponentState s \<noteq> OMX_StateInvalid"
    and "0 \<le> mTargetZoomIdx s" "mTargetZoomIdx s < mMaxZoomSupported s"
    and "mMaxZoomSupported s \<le> ZOOM_STAGES"
    and "length ts = nat \<bar>mTargetZoomIdx s - mCurrentZoomIdx s\<bar>"
    and "int32 (mCurrentZoomIdx s)"
  shows "\<exists>outs. advanceZoom_ticks tuna ts s = Inr outs \<and> length outs = length ts \<and>
     (\<forall>k<length ts. case outs ! k of (ret, evs, sk) \<Rightarrow>
         mCurrentZoomIdx sk = mCurrentZoomIdx s +
            (int k + 1) * (if mCurrentZoomIdx s < mTargetZoomIdx s then 1 else - 1) \<and>
         notifications evs = [(mCurrentZoomIdx sk, Suc k = length ts)] \<and>
         (SetState_CAMERA_STOP_SMOOTH_ZOOM \<in> set evs \<longleftrightarrow> Suc k = length ts))"
  using assms
proof (induction ts arbitrary: s)
  case Nil
  then show ?case by simp
next
  case (Cons t ts)
  define dir :: int where "dir = (if mCurrentZoomIdx s < mTargetZoomIdx s then 1 else - 1)"
  define new where "new = mCurrentZoomIdx s + dir"
  from Cons.prems have t: "zoomActive t" "omxStepOk t"
    and rest: "\<forall>t\<in>set ts. zoomActive t \<and> omxStepOk t" by simp_all
  from Cons.prems(7) have ne: "mCurrentZoomIdx s \<noteq> mTargetZoomIdx s" by auto
  have new': "new = mCurrentZoomIdx s + (if mCurrentZoomIdx s < mTargetZoomIdx s then 1 else - 1)"
    by (simp add: new_def dir_def)
  have low: "INT_MIN < mMaxZoomSupported s" and itgt: "int32 (mTargetZoomIdx s)"
    using Cons.prems(4-6) by (simp_all add: INT_MIN_def int32_def INT_MAX_def ZOOM_STAGES_def)
  from advanceZoom_smooth_step
    [OF t(1) Cons.prems(2) ne Cons.prems(6) low Cons.prems(8) itgt new', of tuna]
  obtain ret evs s' where adv: "advanceZoom tuna t s = Inr (ret, evs, s')"
    and cur': "mCurrentZoomIdx s' = new" and inew: "int32 new" and tgt': "mTargetZoomIdx s' = mTargetZoomIdx s"
    and nr': "\<not> mReturnZoomStatus s'" and max': "mMaxZoomSupported s' = mMaxZoomSupported s"
    and st': "mComponentState s' = mComponentState s"
    and n1: "notifications evs = [(new, new = mTargetZoomIdx s)]"
    and no_req: "new \<noteq> mTargetZoomIdx s \<longrightarrow> SetState_CAMERA_STOP_SMOOTH_ZOOM \<notin> set evs"
    and req: "new = mTargetZoomIdx s \<and> mComponentState s \<noteq> OMX_StateInvalid \<and> 0 \<le> new \<and>
            new < mMaxZoomSupported s \<and> omxStepOk t \<longrightarrow>
              SetState_CAMERA_STOP_SMOOTH_ZOOM \<in> set evs"
    by blast
  have len': "length ts = nat \<bar>mTargetZoomIdx s' - mCurrentZoomIdx s'\<bar>"
    using Cons.prems(7) ne by (simp add: cur' tgt' new_def dir_def) arith
  have last_iff: "new = mTargetZoomIdx s \<longleftrightarrow> ts = []"
    using len' by (auto simp add: cur' tgt')
  from Cons.IH [OF rest nr' _ _ _ _ len'] Cons.prems(3-6) inew
  obtain outs where run': "advanceZoom_ticks tuna ts s' = Inr outs"
    and lo: "length outs = length ts"
    and each: "\<forall>k<length ts. case outs ! k of (ret, evs, sk) \<Rightarrow>
         mCurrentZoomIdx sk = mCurrentZoomIdx s' +
            (int k + 1) * (if mCurrentZoomIdx s' < mTargetZoomIdx s' then 1 else - 1) \<and>
         notifications evs = [(mCurrentZoomIdx sk, Suc k = length ts)] \<and>
         (SetState_CAMERA_STOP_SMOOTH_ZOOM \<in> set evs \<longleftrightarrow> Suc k = length ts)"
    by (auto simp add: tgt' max' st' cur')
  have run: "advanceZoom_ticks tuna (t # ts) s = Inr ((ret, evs, s') # outs)"
    using adv run' by simp
  have dir': "(if mCurrentZoomIdx s' < mTargetZoomIdx s' then 1 else - 1) = dir" if "ts \<noteq> []"
    using that last_iff ne by (auto simp add: cur' tgt' new_def dir_def)
  have "case ((ret, evs, s') # outs) ! k of (ret, evs, sk) \<Rightarrow>
         mCurrentZoomIdx sk = mCurrentZoomIdx s + (int k + 1) * dir \<and>
         notifications evs = [(mCurrentZoomIdx sk, Suc k = length (t # ts))] \<and>
         (SetState_CAMERA_STOP_SMOOTH_ZOOM \<in> set evs \<longleftrightarrow> Suc k = length (t # ts))"
    if k: "k < length (t # ts)" for k
  proof (cases k)
    case 0
    have "SetState_CAMERA_STOP_SMOOTH_ZOOM \<in> set evs \<longleftrightarrow> ts = []"
      using no_req req last_iff t(2) Cons.prems(3-5) by auto
    with 0 n1 last_iff show ?thesis by (simp add: cur' new_def)
  next
    case (Suc j)
    with k have j: "j < length ts" by simp
    then have "ts \<noteq> []" by auto
    note d = dir' [OF this]
    obtain r e sk where o: "outs ! j = (r, e, sk)" by (cases "outs ! j")
    from each [rule_format, OF j] o
    have c: "mCurrentZoomIdx sk = mCurrentZoomIdx s' +
            (int j + 1) * (if mCurrentZoomIdx s' < mTargetZoomIdx s' then 1 else - 1)"
      and nn: "notifications e = [(mCurrentZoomIdx sk, Suc j = length ts)]"
      and rr: "SetState_CAMERA_STOP_SMOOTH_ZOOM \<in> set e \<longleftrightarrow> Suc j = length ts"
      by simp_all
    from c have "mCurrentZoomIdx sk = new + (int j + 1) * dir" unfolding d by (simp add: cur')
    then have "mCurrentZoomIdx sk = mCurrentZoomIdx s + (int (Suc j) + 1) * dir"
      by (simp add: new_def distrib_right)
    with Suc o nn rr show ?thesis by simp
  qed
  with run lo show ?case unfolding dir_def by simp
qed

text \<open>
  C1: after a successful startSmoothZoom(target) from index current (an int), with every tick seeing
  ZOOM_ACTIVE and every hardware apply succeeding (component not invalid, OMX_SetConfig
  accepted), |target - current| calls of advanceZoom all return, the call number k + 1
  leaves mCurrentZoomIdx at current plus or minus (k + 1), one step nearer the target than
  the call before, the target is reached by the last call and by no earlier one, every
  call notifies the subscribers exactly once with the index it reached, the final flag
  being set by the last call only, and the last call, and no other, requests the
  CAMERA_STOP_SMOOTH_ZOOM transition.
\<close>

theorem startSmoothZoom_advanceZoom_reaches_target:
  assumes start: "startSmoothZoom target s0 = (NO_ERROR, s)"
    and valid: "mComponentState s0 \<noteq> OMX_StateInvalid"
    and cfg: "mMaxZoomSupported s0 \<le> ZOOM_STAGES"
    and ticks: "\<forall>t\<in>set ts. zoomActive t \<and> omxStepOk t \<and> omxUpdateOk t"
    and n: "length ts = nat \<bar>target - mCurrentZoomIdx s0\<bar>"
    and int: "int32 (mCurrentZoomIdx s0)"
  shows "\<exists>outs. advanceZoom_ticks tuna ts s = Inr outs \<and> length outs = length ts \<and>
     (\<forall>k<length ts. case outs ! k of (ret, evs, sk) \<Rightarrow>
         mCurrentZoomIdx sk = mCurrentZoomIdx s0 +
            (int k + 1) * (if mCurrentZoomIdx s0 < target then 1 else - 1) \<and>
         (mCurrentZoomIdx sk = target \<longleftrightarrow> Suc k = length ts) \<and>
         notifications evs = [(mCurrentZoomIdx sk, Suc k = length ts)] \<and>
         (SetState_CAMERA_STOP_SMOOTH_ZOOM \<in> set evs \<longleftrightarrow> Suc k = length ts))"
proof -
  from start have range: "0 \<le> target" "target < mMaxZoomSupported s0"
    and s: "s = s0\<lparr>mTargetZoomIdx := target, mZoomParameterIdx := mCurrentZoomIdx s0,
                    mReturnZoomStatus := False\<rparr>"
    by (auto simp add: startSmoothZoom_def split: if_splits)
  have a: "\<forall>t\<in>set ts. zoomActive t \<and> omxStepOk t" using ticks by blast
  have b: "\<not> mReturnZoomStatus s" "mComponentState s \<noteq> OMX_StateInvalid"
    "0 \<le> mTargetZoomIdx s" "mTargetZoomIdx s < mMaxZoomSupported s"
    "mMaxZoomSupported s \<le> ZOOM_STAGES"
    "length ts = nat \<bar>mTargetZoomIdx s - mCurrentZoomIdx s\<bar>"
    "int32 (mCurrentZoomIdx s)"
    using valid cfg range n int by (simp_all add: s)
  from advanceZoom_ticks_smooth [OF a b, of tuna]
  obtain outs where run: "advanceZoom_ticks tuna ts s = Inr outs"
    and lo: "length outs = length ts"
    and each: "\<forall>k<length ts. case outs ! k of (ret, evs, sk) \<Rightarrow>
         mCurrentZoomIdx sk = mCurrentZoomIdx s +
            (int k + 1) * (if mCurrentZoomIdx s < mTargetZoomIdx s then 1 else - 1) \<and>
         notifications evs = [(mCurrentZoomIdx sk, Suc k = length ts)] \<and>
         (SetState_CAMERA_STOP_SMOOTH_ZOOM \<in> set evs \<longleftrightarrow> Suc k = length ts)"
    by blast
  have "case outs ! k of (ret, evs, sk) \<Rightarrow>
         mCurrentZoomIdx sk = mCurrentZoomIdx s0 +
            (int k + 1) * (if mCurrentZoomIdx s0 < target then 1 else - 1) \<and>
         (mCurrentZoomIdx sk = target \<longleftrightarrow> Suc k = length ts) \<and>
         notifications evs = [(mCurrentZoomIdx sk, Suc k = length ts)] \<and>
         (SetState_CAMERA_STOP_SMOOTH_ZOOM \<in> set evs \<longleftrightarrow> Suc k = length ts)"
    if k: "k < length ts" for k
  proof -
    obtain ret evs sk where o: "outs ! k = (ret, evs, sk)" by (cases "outs ! k")
    from each k o have c: "mCurrentZoomIdx sk = mCurrentZoomIdx s0 +
            (int k + 1) * (if mCurrentZoomIdx s0 < target then 1 else - 1)"
      and r: "notifications evs = [(mCurrentZoomIdx sk, Suc k = length ts)]"
         "SetState_CAMERA_STOP_SMOOTH_ZOOM \<in> set evs \<longleftrightarrow> Suc k = length ts"
      by (auto simp add: s)
    have "mCurrentZoomIdx sk = target \<longleftrightarrow> Suc k = length ts"
      using c k n by (auto split: if_splits)
    with o c r show ?thesis by simp
  qed
  with run lo show ?thesis by blast
qed

text \<open>
  The scenario "startSmoothZoom(2) from index 0 with maxZoomSupported = 3": index 1, not
  final; then index 2, final, with the exit requested.
\<close>

theorem startSmoothZoom_advanceZoom_reaches_target_witness:
  "\<exists>outs.
     advanceZoom_ticks False
       [\<lparr>zoomActive = True, omxStepOk = True, omxUpdateOk = True, setStateRet = 0,
         commitStateRet = 0, rollbackStateRet = 0\<rparr>,
        \<lparr>zoomActive = True, omxStepOk = True, omxUpdateOk = True, setStateRet = 0,
         commitStateRet = 0, rollbackStateRet = 0\<rparr>]
       (snd (startSmoothZoom 2 (idleAdapter 3))) = Inr outs \<and>
     length outs = 2 \<and>
     mCurrentZoomIdx (snd (snd (outs ! 0))) = 1 \<and>
     notifications (fst (snd (outs ! 0))) = [(1, False)] \<and>
     SetState_CAMERA_STOP_SMOOTH_ZOOM \<notin> set (fst (snd (outs ! 0))) \<and>
     mCurrentZoomIdx (snd (snd (outs ! 1))) = 2 \<and>
     notifications (fst (snd (outs ! 1))) = [(2, True)] \<and>
     SetState_CAMERA_STOP_SMOOTH_ZOOM \<in> set (fst (snd (outs ! 1)))"
proof -
  let ?t = "\<lparr>zoomActive = True, omxStepOk = True, omxUpdateOk = True, setStateRet = 0,
         commitStateRet = 0, rollbackStateRet = 0\<rparr>"
  let ?s = "snd (startSmoothZoom 2 (idleAdapter 3))"
  have start: "startSmoothZoom 2 (idleAdapter 3) = (NO_ERROR, ?s)"
    by (simp add: startSmoothZoom_def idleAdapter_def)
  have valid: "mComponentState (idleAdapter 3) \<noteq> OMX_StateInvalid"
    and cfg: "mMaxZoomSupported (idleAdapter 3) \<le> ZOOM_STAGES"
    by (simp_all add: idleAdapter_def ZOOM_STAGES_def)
  have ticks: "\<forall>t\<in>set [?t, ?t]. zoomActive t \<and> omxStepOk t \<and> omxUpdateOk t" by simp
  have n: "length [?t, ?t] = nat \<bar>2 - mCurrentZoomIdx (idleAdapter 3)\<bar>"
    by (simp add: idleAdapter_def)
  have int: "int32 (mCurrentZoomIdx (idleAdapter 3))"
    by (simp add: idleAdapter_def int32_def INT_MIN_def INT_MAX_def)
  from startSmoothZoom_advanceZoom_reaches_target [OF start valid cfg ticks n int, of False]
  obtain outs where run: "advanceZoom_ticks False [?t, ?t] ?s = Inr outs"
    and lo: "length outs = length [?t, ?t]"
    and each: "\<forall>k<length [?t, ?t]. case outs ! k of (ret, evs, sk) \<Rightarrow>
         mCurrentZoomIdx sk = mCurrentZoomIdx (idleAdapter 3) +
            (int k + 1) * (if mCurrentZoomIdx (idleAdapter 3) < 2 then 1 else - 1) \<and>
         (mCurrentZoomIdx sk = 2 \<longleftrightarrow> Suc k = length [?t, ?t]) \<and>
         notifications evs = [(mCurrentZoomIdx sk, Suc k = length [?t, ?t])] \<and>
         (SetState_CAMERA_STOP_SMOOTH_ZOOM \<in> set evs \<longleftrightarrow> Suc k = length [?t, ?t])"
    by blast
  have k0: "(0::nat) < length [?t, ?t]" and k1: "(1::nat) < length [?t, ?t]" by simp_all
  from each [rule_format, OF k0] each [rule_format, OF k1] run lo show ?thesis
    by (simp add: idleAdapter_def split: prod.splits)
qed

text \<open>
  With no stop of a smooth zoom pending (mReturnZoomStatus false), requests are coalesced:
  two setParametersZoom calls with valid indices accepted while mZoomUpdating is set write
  nothing, and the following advanceZoom leaves the session at the second index and
  writes nothing but the scale factor of the second index, once, or not at all when that
  index is the one already applied or the component is invalid.
\<close>

lemma setParametersZoom_twice_coalesced:
  assumes nr: "\<not> mReturnZoomStatus s" and upd: "mZoomUpdating s"
    and r1: "\<not> reqZoomActive r1" "0 \<le> reqZoom r1" "reqZoom r1 < mMaxZoomSupported s"
    and r2: "\<not> reqZoomActive r2" "0 \<le> reqZoom r2" "reqZoom r2 < mMaxZoomSupported s"
    and cfg: "mMaxZoomSupported s \<le> ZOOM_STAGES"
  shows "\<exists>s1 s2 ret evs s3.
      setParametersZoom tuna r1 s = Inr (NO_ERROR, [], s1) \<and>
      setParametersZoom tuna r2 s1 = Inr (NO_ERROR, [], s2) \<and>
      advanceZoom tuna t s2 = Inr (ret, evs, s3) \<and>
      mCurrentZoomIdx s3 = reqZoom r2 \<and> mTargetZoomIdx s3 = reqZoom r2 \<and>
      (zoomAlreadyApplied tuna s (reqZoom r2) \<or> mComponentState s = OMX_StateInvalid \<longrightarrow>
         hardwareWrites evs = []) \<and>
      (\<not> zoomAlreadyApplied tuna s (reqZoom r2) \<and> mComponentState s \<noteq> OMX_StateInvalid \<longrightarrow>
         (\<exists>z. getZoomStep tuna (zoomContextRecorded tuna s) (reqZoom r2) = Inr z \<and>
              hardwareWrites evs = [(z, z, omxUpdateOk t)]))"
proof -
  define s1 where "s1 = s\<lparr>mCurrentZoomIdx := reqZoom r1, mTargetZoomIdx := reqZoom r1,
                          mZoomUpdate := True\<rparr>"
  define s2 where "s2 = s1\<lparr>mCurrentZoomIdx := reqZoom r2, mTargetZoomIdx := reqZoom r2,
                           mZoomUpdate := True\<rparr>"
  have first: "setParametersZoom tuna r1 s = Inr (NO_ERROR, [], s1)"
    using r1 upd by (simp add: setParametersZoom_def s1_def Let_def)
  have second: "setParametersZoom tuna r2 s1 = Inr (NO_ERROR, [], s2)"
    using r2 upd by (simp add: setParametersZoom_def s1_def s2_def Let_def)
  define ret where "ret = (if zoomActive t then fst (stopSmoothZoomState t) else NO_ERROR)"
  define evs0 where "evs0 = (if zoomActive t then snd (stopSmoothZoomState t) else [])"
  have step: "advanceZoom_step tuna t s2 = Inr (ret, evs0, s2)"
    using nr by (simp add: advanceZoom_step_def s2_def s1_def ret_def evs0_def split: prod.splits)
  have hw0: "hardwareWrites evs0 = []"
    by (simp add: evs0_def stopSmoothZoomState_def)
  have max2: "mMaxZoomSupported s2 \<le> ZOOM_STAGES" "INT_MIN < mMaxZoomSupported s2"
    using cfg r2 by (simp_all add: s2_def s1_def INT_MIN_def)
  have rej: "\<not> zoomIndexRejected s2 (reqZoom r2)"
    using zoomIndexRejected_exact [OF max2(2) ZOOM_STAGES_INT_MAX [OF max2(1)], of "reqZoom r2"] r2
    by (simp add: s2_def s1_def)
  from doZoom_no_fault [OF max2, of tuna "omxUpdateOk t" "reqZoom r2"]
  obtain r evs' s3 where d: "doZoom tuna (omxUpdateOk t) (reqZoom r2) s2 = Inr (r, evs', s3)"
    by blast
  note fr = doZoom_frame [OF d]
  have upd2: "advanceZoom_update tuna t s2
                = Inr (evs', s3\<lparr>mZoomUpdate := False, mZoomUpdating := True\<rparr>)"
    using d by (simp add: advanceZoom_update_def s2_def)
  have adv: "advanceZoom tuna t s2
               = Inr (ret, evs0 @ evs', s3\<lparr>mZoomUpdate := False, mZoomUpdating := True\<rparr>)"
    using step upd2 by (simp add: advanceZoom_def)
  have same: "zoomAlreadyApplied tuna s2 (reqZoom r2) = zoomAlreadyApplied tuna s (reqZoom r2)"
    by (rule zoomAlreadyApplied_cong) (simp_all add: s2_def s1_def)
  have none: "hardwareWrites (evs0 @ evs') = []"
    if "zoomAlreadyApplied tuna s (reqZoom r2) \<or> mComponentState s = OMX_StateInvalid"
  proof -
    from that same
    have "zoomAlreadyApplied tuna s2 (reqZoom r2) \<or> mComponentState s2 = OMX_StateInvalid"
      by (simp add: s2_def s1_def)
    from doZoom_no_write [OF d this] hw0 show ?thesis by (simp add: hardwareWrites_append)
  qed
  have one: "\<exists>z. getZoomStep tuna (zoomContextRecorded tuna s) (reqZoom r2) = Inr z \<and>
              hardwareWrites (evs0 @ evs') = [(z, z, omxUpdateOk t)]"
    if "\<not> zoomAlreadyApplied tuna s (reqZoom r2) \<and> mComponentState s \<noteq> OMX_StateInvalid"
  proof -
    from that same rej have "\<not> zoomAlreadyApplied tuna s2 (reqZoom r2)"
      "\<not> zoomIndexRejected s2 (reqZoom r2)" "mComponentState s2 \<noteq> OMX_StateInvalid"
      by (simp_all add: s2_def s1_def)
    from doZoom_write_event [OF d this]
    obtain z where z: "getZoomStep tuna (zoomContextRecorded tuna s2) (reqZoom r2) = Inr z"
      and e: "evs' = [OMX_SetConfig_DigitalZoom z z (omxUpdateOk t)]" by blast
    have "getZoomStep tuna (zoomContextRecorded tuna s2) (reqZoom r2)
            = getZoomStep tuna (zoomContextRecorded tuna s) (reqZoom r2)"
      by (rule getZoomStep_cong)
         (simp_all add: zoomContextRecorded_context curZoomModeIsVideo_def s2_def s1_def)
    with z e hw0 show ?thesis by (simp add: hardwareWrites_append)
  qed
  have cur3: "mCurrentZoomIdx (s3\<lparr>mZoomUpdate := False, mZoomUpdating := True\<rparr>) = reqZoom r2"
    "mTargetZoomIdx (s3\<lparr>mZoomUpdate := False, mZoomUpdating := True\<rparr>) = reqZoom r2"
    using fr by (simp_all add: s2_def)
  from first second adv cur3 none one show ?thesis by blast
qed

lemma setParametersZoom_twice_coalesced_example:
  "\<exists>s1 s2 ret evs s3.
      setParametersZoom False \<lparr>reqZoomActive = False, reqZoom = 3, reqOmxOk = True\<rparr>
        ((idleAdapter 61)\<lparr>mZoomUpdating := True\<rparr>) = Inr (NO_ERROR, [], s1) \<and>
      setParametersZoom False \<lparr>reqZoomActive = False, reqZoom = 4, reqOmxOk = True\<rparr> s1
        = Inr (NO_ERROR, [], s2) \<and>
      advanceZoom False
        \<lparr>zoomActive = False, omxStepOk = True, omxUpdateOk = True, setStateRet = 0,
         commitStateRet = 0, rollbackStateRet = 0\<rparr> s2 = Inr (ret, evs, s3) \<and>
      mCurrentZoomIdx s3 = 4 \<and> mTargetZoomIdx s3 = 4 \<and>
      hardwareWrites evs = [(75366, 75366, True)]"
proof -
  let ?s = "(idleAdapter 61)\<lparr>mZoomUpdating := True\<rparr>"
  let ?r1 = "\<lparr>reqZoomActive = False, reqZoom = 3, reqOmxOk = True\<rparr>"
  let ?r2 = "\<lparr>reqZoomActive = False, reqZoom = 4, reqOmxOk = True\<rparr>"
  let ?t = "\<lparr>zoomActive = False, omxStepOk = True, omxUpdateOk = True, setStateRet = 0,
         commitStateRet = 0, rollbackStateRet = 0\<rparr>"
  have h: "\<not> mReturnZoomStatus ?s" "mZoomUpdating ?s"
    "\<not> reqZoomActive ?r1" "0 \<le> reqZoom ?r1" "reqZoom ?r1 < mMaxZoomSupported ?s"
    "\<not> reqZoomActive ?r2" "0 \<le> reqZoom ?r2" "reqZoom ?r2 < mMaxZoomSupported ?s"
    "mMaxZoomSupported ?s \<le> ZOOM_STAGES"
    by (simp_all add: idleAdapter_def ZOOM_STAGES_def)
  have z: "getZoomStep False (zoomContextRecorded False ?s) 4 = Inr 75366"
    by (simp add: getZoomStep_def ZOOM_STEPS_at_def ZOOM_STAGES_def ZOOM_STEPS_def)
  have na: "\<not> zoomAlreadyApplied False ?s 4" "mComponentState ?s \<noteq> OMX_StateInvalid"
    by (simp_all add: zoomAlreadyApplied_def idleAdapter_def)
  from setParametersZoom_twice_coalesced [OF h, of False ?t] z na
  show ?thesis by (simp del: ex_simps)
qed

text \<open>
  C5 fails when a stop of a smooth zoom is pending: setParametersZoom sets a new target
  but, unlike startSmoothZoom, leaves mReturnZoomStatus set, and advanceZoom serves the
  pending stop before the deferred update. After startSmoothZoom(5) and stopSmoothZoom
  from the idle session, the indices 2, 3 and 4 are requested: 2 is applied at once, 3
  and 4 are deferred while mZoomUpdating is set. The next advanceZoom steps from 4 to 5,
  writes the scale factor of index 5 and leaves the session at 5; the scale factor of
  index 4, the most recent request, is never written.
\<close>

theorem setParametersZoom_twice_pending_stop_not_coalesced:
  "stopSmoothZoom (snd (startSmoothZoom 5 (idleAdapter 61)))
     = (NO_ERROR, (idleAdapter 61)\<lparr>mTargetZoomIdx := 5, mZoomInc := 1,
                                    mReturnZoomStatus := True\<rparr>) \<and>
   setParametersZoom False \<lparr>reqZoomActive = False, reqZoom = 2, reqOmxOk = True\<rparr>
       ((idleAdapter 61)\<lparr>mTargetZoomIdx := 5, mZoomInc := 1, mReturnZoomStatus := True\<rparr>)
     = Inr (NO_ERROR, [OMX_SetConfig_DigitalZoom 70124 70124 True],
            (idleAdapter 61)\<lparr>mCurrentZoomIdx := 2, mTargetZoomIdx := 2,
                              mPreviousZoomIndx := 2, mZoomInc := 1,
                              mReturnZoomStatus := True, mZoomUpdating := True\<rparr>) \<and>
   setParametersZoom False \<lparr>reqZoomActive = False, reqZoom = 3, reqOmxOk = True\<rparr>
       ((idleAdapter 61)\<lparr>mCurrentZoomIdx := 2, mTargetZoomIdx := 2,
                         mPreviousZoomIndx := 2, mZoomInc := 1,
                         mReturnZoomStatus := True, mZoomUpdating := True\<rparr>)
     = Inr (NO_ERROR, [],
            (idleAdapter 61)\<lparr>mCurrentZoomIdx := 3, mTargetZoomIdx := 3,
                              mPreviousZoomIndx := 2, mZoomInc := 1,
                              mReturnZoomStatus := True, mZoomUpdating := True,
                              mZoomUpdate := True\<rparr>) \<and>
   setParametersZoom False \<lparr>reqZoomActive = False, reqZoom = 4, reqOmxOk = True\<rparr>
       ((idleAdapter 61)\<lparr>mCurrentZoomIdx := 3, mTargetZoomIdx := 3,
                         mPreviousZoomIndx := 2, mZoomInc := 1,
                         mReturnZoomStatus := True, mZoomUpdating := True,
                         mZoomUpdate := True\<rparr>)
     = Inr (NO_ERROR, [],
            (idleAdapter 61)\<lparr>mCurrentZoomIdx := 4, mTargetZoomIdx := 4,
                              mPreviousZoomIndx := 2, mZoomInc := 1,
                              mReturnZoomStatus := True, mZoomUpdating := True,
                              mZoomUpdate := True\<rparr>) \<and>
   advanceZoom False
       \<lparr>zoomActive = False, omxStepOk = True, omxUpdateOk = True, setStateRet = 0,
        commitStateRet = 0, rollbackStateRet = 0\<rparr>
       ((idleAdapter 61)\<lparr>mCurrentZoomIdx := 4, mTargetZoomIdx := 4,
                         mPreviousZoomIndx := 2, mZoomInc := 1,
                         mReturnZoomStatus := True, mZoomUpdating := True,
                         mZoomUpdate := True\<rparr>)
     = Inr (NO_ERROR,
            [OMX_SetConfig_DigitalZoom 77988 77988 True, NotifyZoomSubscribers 5 True],
            (idleAdapter 61)\<lparr>mCurrentZoomIdx := 5, mTargetZoomIdx := 5,
                              mPreviousZoomIndx := 5, mZoomInc := 1,
                              mZoomUpdating := True\<rparr>) \<and>
   ZOOM_STEPS ! 4 = 75366 \<and> ZOOM_STEPS ! 5 = 77988"
  by (simp add: startSmoothZoom_def stopSmoothZoom_def setParametersZoom_def advanceZoom_def
      advanceZoom_step_def advanceZoom_update_def doZoom_def zoomIndexRejected_def
      int32_wrap_def zoomAlreadyApplied_def
      zoomContextRecorded_def getZoomStep_def ZOOM_STEPS_at_def ZOOM_STAGES_def ZOOM_STEPS_def
      idleAdapter_def)

theorem setParametersZoom_twice_pending_stop_not_coalesced_witness:
  "\<exists>ret evs s'.
     advanceZoom False
       \<lparr>zoomActive = False, omxStepOk = True, omxUpdateOk = True, setStateRet = 0,
        commitStateRet = 0, rollbackStateRet = 0\<rparr>
       ((idleAdapter 61)\<lparr>mCurrentZoomIdx := 4, mTargetZoomIdx := 4,
                         mPreviousZoomIndx := 2, mZoomInc := 1,
                         mReturnZoomStatus := True, mZoomUpdating := True,
                         mZoomUpdate := True\<rparr>) = Inr (ret, evs, s') \<and>
     hardwareWrites evs = [(77988, 77988, True)] \<and>
     hardwareWrites evs \<noteq> [(75366, 75366, True)] \<and>
     mCurrentZoomIdx s' = 5"
  using setParametersZoom_twice_pending_stop_not_coalesced by simp

end
